theory Spec2Isabelle
  imports Complex_Main
begin

section \<open>JavaScript values used by the components\<close>

text \<open>
  A thrown or rejected JavaScript error object: its \<open>name\<close> and its \<open>message\<close>.
\<close>

datatype js_error = JsError (err_name: string) (err_message: string)

text \<open>
  Reading index \<open>i\<close> of a JavaScript array: \<open>undefined\<close> (here \<open>None\<close>) outside the
  array, never an exception.
\<close>

definition js_index :: "'a list \<Rightarrow> nat \<Rightarrow> 'a option" where
  "js_index xs i = (if i < length xs then Some (xs ! i) else None)"

text \<open>\<open>String.prototype.includes\<close>: the needle occurs as a contiguous run.\<close>

fun starts_with :: "string \<Rightarrow> string \<Rightarrow> bool" where
  "starts_with s [] = True"
| "starts_with [] (n # ns) = False"
| "starts_with (c # cs) (n # ns) = (c = n \<and> starts_with cs ns)"

fun includes_str :: "string \<Rightarrow> string \<Rightarrow> bool" where
  "includes_str [] needle = (needle = [])"
| "includes_str (c # cs) needle = (starts_with (c # cs) needle \<or> includes_str cs needle)"

section \<open>CameraView.jsx: the constraint levels\<close>

text \<open>
  A \<open>MediaStreamConstraints\<close> object as the component writes it: \<open>video\<close> is either a
  boolean or an object whose properties are optional; a numeric property is an object
  with an optional \<open>ideal\<close> and an optional \<open>max\<close>.
\<close>

record range_constraint =
  ideal :: "nat option"
  max_limit :: "nat option"

record track_constraints =
  facingMode :: "string option"
  width :: "range_constraint option"
  height :: "range_constraint option"
  frameRate :: "range_constraint option"

datatype video_constraint = VideoFlag bool | VideoTrack track_constraints

record media_constraints =
  video :: video_constraint
  audio :: bool

definition constraintLevels :: "string \<Rightarrow> media_constraints list" where
  "constraintLevels cameraFacing =
    [ \<lparr>video = VideoFlag True, audio = False\<rparr>,
      \<lparr>video = VideoTrack \<lparr>facingMode = Some cameraFacing, width = None, height = None,
          frameRate = None\<rparr>, audio = False\<rparr>,
      \<lparr>video = VideoTrack \<lparr>facingMode = Some cameraFacing,
          width = Some \<lparr>ideal = Some 640, max_limit = None\<rparr>,
          height = Some \<lparr>ideal = Some 480, max_limit = None\<rparr>,
          frameRate = None\<rparr>, audio = False\<rparr>,
      \<lparr>video = VideoTrack \<lparr>facingMode = Some cameraFacing,
          width = Some \<lparr>ideal = Some 1280, max_limit = None\<rparr>,
          height = Some \<lparr>ideal = Some 720, max_limit = None\<rparr>,
          frameRate = None\<rparr>, audio = False\<rparr>,
      \<lparr>video = VideoTrack \<lparr>facingMode = Some cameraFacing,
          width = Some \<lparr>ideal = Some 1280, max_limit = Some 1920\<rparr>,
          height = Some \<lparr>ideal = Some 720, max_limit = Some 1080\<rparr>,
          frameRate = Some \<lparr>ideal = Some 30, max_limit = Some 60\<rparr>\<rparr>, audio = False\<rparr> ]"

text \<open>
  \<open>getConstraints(level)\<close> returns
  \<open>constraintLevels[Math.min(level, constraintLevels.length - 1)]\<close>; the component's
  \<open>cameraFacing\<close> state is the first argument here.
\<close>

definition getConstraints :: "string \<Rightarrow> nat \<Rightarrow> media_constraints option" where
  "getConstraints cameraFacing level =
     js_index (constraintLevels cameraFacing)
       (min level (length (constraintLevels cameraFacing) - 1))"

subsection \<open>What a constraint set demands\<close>

text \<open>
  The single demands a constraint set makes of the camera, one per property it
  mentions: the property's path and the value asked for. \<open>video: true\<close> demands nothing
  of the video track.
\<close>

datatype demand_value = Text string | Number nat

fun range_demands :: "string \<Rightarrow> range_constraint option \<Rightarrow> (string \<times> demand_value) list" where
  "range_demands key None = []"
| "range_demands key (Some r) =
     (case ideal r of None \<Rightarrow> [] | Some n \<Rightarrow> [(key @ ''.ideal'', Number n)]) @
     (case max_limit r of None \<Rightarrow> [] | Some n \<Rightarrow> [(key @ ''.max'', Number n)])"

fun video_demands :: "video_constraint \<Rightarrow> (string \<times> demand_value) list" where
  "video_demands (VideoFlag b) = []"
| "video_demands (VideoTrack t) =
     (case facingMode t of None \<Rightarrow> [] | Some f \<Rightarrow> [(''facingMode'', Text f)]) @
     range_demands ''width'' (width t) @
     range_demands ''height'' (height t) @
     range_demands ''frameRate'' (frameRate t)"

text \<open>
  A constraint set \<open>c'\<close> relaxes (weakens) \<open>c\<close> when it asks for the same media kinds and
  every demand it makes is already a demand of \<open>c\<close>.
\<close>

definition relaxation_of :: "media_constraints \<Rightarrow> media_constraints \<Rightarrow> bool" where
  "relaxation_of c' c =
     (audio c' = audio c \<and>
      list_all (\<lambda>d. d \<in> set (video_demands (video c))) (video_demands (video c')))"

text \<open>The same on the results of \<open>getConstraints\<close>, where \<open>undefined\<close> relaxes nothing.\<close>

definition relaxes_level :: "media_constraints option \<Rightarrow> media_constraints option \<Rightarrow> bool" where
  "relaxes_level next_level this_level =
     (case (next_level, this_level) of
        (Some c', Some c) \<Rightarrow> relaxation_of c' c
      | _ \<Rightarrow> False)"

section \<open>CameraView.jsx: the camera state and its environment\<close>

text \<open>
  A \<open>MediaStream\<close> is known by the tracks \<open>getTracks()\<close> returns; a track by its identity.
  The \<open>video\<close> element is known by its \<open>srcObject\<close>.
\<close>

type_synonym track = nat

datatype media_stream = MediaStream (getTracks: "track list")

datatype video_element = VideoElement (srcObject: "media_stream option")

text \<open>
  The component's refs, state and props that \<open>startCamera\<close> and \<open>stopCamera\<close> touch,
  followed by what the browser observes of a run: the tracks on which \<open>stop()\<close> was
  called, the argument of every \<open>getUserMedia\<close> call, every delay awaited through
  \<open>setTimeout\<close>, every \<open>onError\<close> call, and the (level, attempt) pair every activation of
  \<open>startCamera\<close> logs on entry.
\<close>

record camera =
  streamRef :: "media_stream option"
  videoRef :: "video_element option"
  isStreaming :: bool
  error :: "string option"
  retryCount :: nat
  isRetrying :: bool
  cameraFacing :: string
  onErrorGiven :: bool
  stopped :: "track list"
  userMediaCalls :: "media_constraints option list"
  waits :: "nat list"
  onErrorCalls :: "js_error list"
  activations :: "(nat \<times> nat) list"

text \<open>
  What the browser answers to one attempt. Either \<open>navigator.mediaDevices\<close> is
  undefined (an insecure origin, an old browser): then reading its \<open>getUserMedia\<close>
  property throws a \<open>TypeError\<close>, with the engine's message, and no call is made. Or
  the call is made and its promise settles (a resolved value may be \<open>null\<close>). The second
  component is the event that ends the wait on the video element. The browser is an
  oracle from the number of \<open>getUserMedia\<close> calls made so far.
\<close>

datatype user_media_outcome =
    NoMediaDevices string
  | Rejected js_error
  | Resolved "media_stream option"

datatype video_outcome = LoadedMetadata | VideoFailed | PlayFailed | LoadTimeout

type_synonym browser = "nat \<Rightarrow> user_media_outcome \<times> video_outcome"

definition maxAttempts :: nat where
  "maxAttempts = 3"

definition maxConstraintLevels :: nat where
  "maxConstraintLevels = 5"

text \<open>\<open>const delay = attempt > 1 ? 500 + (attempt * 200) : 100\<close>\<close>

definition delay :: "nat \<Rightarrow> nat" where
  "delay attempt = (if attempt > 1 then 500 + attempt * 200 else 100)"

text \<open>
  The block that stops the held stream (it opens \<open>startCamera\<close>, its \<open>catch\<close> and
  \<open>stopCamera\<close>), and the block that clears the video element.
\<close>

definition releaseStream :: "camera \<Rightarrow> camera" where
  "releaseStream s =
     (case streamRef s of
        None \<Rightarrow> s
      | Some st \<Rightarrow> s\<lparr>stopped := stopped s @ getTracks st, streamRef := None\<rparr>)"

definition clearVideo :: "camera \<Rightarrow> camera" where
  "clearVideo s =
     (case videoRef s of
        None \<Rightarrow> s
      | Some v \<Rightarrow> s\<lparr>videoRef := Some (VideoElement None)\<rparr>)"

definition stopCamera :: "camera \<Rightarrow> camera" where
  "stopCamera s = (clearVideo (releaseStream s))\<lparr>isStreaming := False\<rparr>"

text \<open>\<open>getCameraErrorMessage\<close>, branch by branch.\<close>

definition getCameraErrorMessage :: "js_error \<Rightarrow> string" where
  "getCameraErrorMessage err =
     (if err_name err = ''NotAllowedError'' then
        ''Camera access denied. Please allow camera permissions and refresh the page.''
      else if err_name err = ''NotFoundError'' then
        ''No camera found. Please connect a camera and try again.''
      else if err_name err = ''NotSupportedError'' then
        ''Camera not supported by this browser. Try using Chrome or Firefox.''
      else if err_name err = ''NotReadableError'' \<or> includes_str (err_message err) ''already in use'' then
        ''Camera is busy. Please close other apps using the camera and try again.''
      else if err_name err = ''OverconstrainedError'' then
        ''Camera settings not supported. Trying with basic settings...''
      else if includes_str (err_message err) ''Video element failed'' then
        ''Video display error. Please refresh the page and try again.''
      else ''Camera error: '' @
        (if err_message err = [] then ''Please refresh the page and try again.''
         else err_message err))"

text \<open>
  The \<open>try\<close> block of one activation of \<open>startCamera\<close>: the state it leaves, and the
  error it throws if it throws.
\<close>

definition tryStart :: "browser \<Rightarrow> camera \<Rightarrow> nat \<Rightarrow> nat \<Rightarrow> camera \<times> js_error option" where
  "tryStart br s constraintLevel attempt =
     (let s1 = s\<lparr>error := None, isRetrying := (attempt > 1),
                 activations := activations s @ [(constraintLevel, attempt)]\<rparr>;
          s2 = clearVideo (releaseStream s1);
          s3 = s2\<lparr>waits := waits s2 @ [delay attempt]\<rparr>;
          constraints = getConstraints (cameraFacing s3) constraintLevel;
          answer = br (length (userMediaCalls s3));
          s4 = s3\<lparr>userMediaCalls := userMediaCalls s3 @ [constraints]\<rparr>
      in case fst answer of
           NoMediaDevices msg \<Rightarrow> (s3, Some (JsError ''TypeError'' msg))
         | Rejected err \<Rightarrow> (s4, Some err)
         | Resolved None \<Rightarrow> (s4, Some (JsError ''Error'' ''No camera stream received''))
         | Resolved (Some stream) \<Rightarrow>
             if length (getTracks stream) = 0 then
               (s4, Some (JsError ''Error'' ''No camera stream received''))
             else
               let s5 = s4\<lparr>streamRef := Some stream\<rparr> in
               (case videoRef s5 of
                  None \<Rightarrow> (s5, Some (JsError ''Error'' ''Video element not available''))
                | Some v \<Rightarrow>
                    let s6 = s5\<lparr>videoRef := Some (VideoElement (Some stream))\<rparr> in
                    (case snd answer of
                       VideoFailed \<Rightarrow>
                         (s6, Some (JsError ''Error'' ''Video element failed to load stream''))
                     | LoadTimeout \<Rightarrow> (s6, Some (JsError ''Error'' ''Video load timeout''))
                     | _ \<Rightarrow>
                         (s6\<lparr>isStreaming := True, retryCount := 0, isRetrying := False\<rparr>,
                          None))))"

text \<open>
  \<open>startCamera(constraintLevel, attempt)\<close>: the \<open>try\<close> block, and on a throw the
  \<open>catch\<close> block with its two recursive calls.
\<close>

function startCamera :: "browser \<Rightarrow> camera \<Rightarrow> nat \<Rightarrow> nat \<Rightarrow> camera" where
  "startCamera br s constraintLevel attempt =
     (case tryStart br s constraintLevel attempt of
        (s', None) \<Rightarrow> s'
      | (s', Some err) \<Rightarrow>
          let c = clearVideo (releaseStream s') in
          if attempt < maxAttempts then
            startCamera br (c\<lparr>retryCount := attempt, waits := waits c @ [1000]\<rparr>)
              constraintLevel (attempt + 1)
          else if constraintLevel < maxConstraintLevels - 1 then
            startCamera br (c\<lparr>retryCount := 0, waits := waits c @ [1000]\<rparr>)
              (constraintLevel + 1) 1
          else
            c\<lparr>error := Some (getCameraErrorMessage err), isStreaming := False,
              retryCount := 0, isRetrying := False,
              onErrorCalls := (if onErrorGiven c then onErrorCalls c @ [err]
                               else onErrorCalls c)\<rparr>)"
  by pat_completeness auto
termination
  by (relation "measures [\<lambda>(br, s, l, a). maxConstraintLevels - l,
                          \<lambda>(br, s, l, a). maxAttempts - a]")
     (auto simp: maxAttempts_def maxConstraintLevels_def)

subsection \<open>Names for the parts of a run\<close>

text \<open>
  The state the \<open>catch\<close> block hands to the retry at the same level, to the first attempt
  at the next level, and the state it leaves when it gives up.
\<close>

definition afterCatch :: "browser \<Rightarrow> camera \<Rightarrow> nat \<Rightarrow> nat \<Rightarrow> camera" where
  "afterCatch br s l a = clearVideo (releaseStream (fst (tryStart br s l a)))"

definition retryState :: "browser \<Rightarrow> camera \<Rightarrow> nat \<Rightarrow> nat \<Rightarrow> camera" where
  "retryState br s l a =
     (afterCatch br s l a)\<lparr>retryCount := a, waits := waits (afterCatch br s l a) @ [1000]\<rparr>"

definition fallbackState :: "browser \<Rightarrow> camera \<Rightarrow> nat \<Rightarrow> nat \<Rightarrow> camera" where
  "fallbackState br s l a =
     (afterCatch br s l a)\<lparr>retryCount := 0, waits := waits (afterCatch br s l a) @ [1000]\<rparr>"

definition failedState :: "browser \<Rightarrow> camera \<Rightarrow> nat \<Rightarrow> nat \<Rightarrow> js_error \<Rightarrow> camera" where
  "failedState br s l a err =
     (afterCatch br s l a)
       \<lparr>error := Some (getCameraErrorMessage err), isStreaming := False,
        retryCount := 0, isRetrying := False,
        onErrorCalls :=
          (if onErrorGiven (afterCatch br s l a) then onErrorCalls (afterCatch br s l a) @ [err]
           else onErrorCalls (afterCatch br s l a))\<rparr>"

text \<open>The \<open>getUserMedia\<close> calls one activation makes: one, or none without the API.\<close>

definition requests_of :: "browser \<Rightarrow> camera \<Rightarrow> nat \<Rightarrow> media_constraints option list" where
  "requests_of br s l =
     (case fst (br (length (userMediaCalls s))) of
        NoMediaDevices msg \<Rightarrow> []
      | _ \<Rightarrow> [getConstraints (cameraFacing s) l])"

text \<open>
  What one invocation adds to the observations: the (level, attempt) pairs of its
  activations, its \<open>getUserMedia\<close> calls and the delays it awaits.
\<close>

definition attempts_made :: "browser \<Rightarrow> camera \<Rightarrow> nat \<Rightarrow> nat \<Rightarrow> (nat \<times> nat) list" where
  "attempts_made br s l a =
     drop (length (activations s)) (activations (startCamera br s l a))"

definition calls_made :: "browser \<Rightarrow> camera \<Rightarrow> nat \<Rightarrow> nat \<Rightarrow> media_constraints option list" where
  "calls_made br s l a =
     drop (length (userMediaCalls s)) (userMediaCalls (startCamera br s l a))"

definition waits_made :: "browser \<Rightarrow> camera \<Rightarrow> nat \<Rightarrow> nat \<Rightarrow> nat list" where
  "waits_made br s l a = drop (length (waits s)) (waits (startCamera br s l a))"


text \<open>
  The delays of a run whose attempts wait \<open>ds\<close> before their camera request: a further
  1000 ms lies between two attempts.
\<close>

fun with_retry_waits :: "nat list \<Rightarrow> nat list" where
  "with_retry_waits [] = []"
| "with_retry_waits [d] = [d]"
| "with_retry_waits (d # e # ds) = d # 1000 # with_retry_waits (e # ds)"

text \<open>The tracks of the stream a state holds.\<close>

definition heldTracks :: "camera \<Rightarrow> track list" where
  "heldTracks s = (case streamRef s of None \<Rightarrow> [] | Some st \<Rightarrow> getTracks st)"

text \<open>The video element, if there is one, shows no stream.\<close>

definition videoCleared :: "camera \<Rightarrow> bool" where
  "videoCleared s = (case videoRef s of None \<Rightarrow> True | Some v \<Rightarrow> srcObject v = None)"

section \<open>ARViewer: the initialization sequence\<close>

text \<open>
  A location as the viewer reads it: the coordinates, and the properties that a
  location object may lack. The coordinates are carried, never computed with.
\<close>

record location =
  latitude :: rat
  longitude :: rat
  altitude :: "rat option"
  accuracy :: "rat option"
  timestamp :: "int option"
  isFallback :: bool
  isRTKEnhanced :: "bool option"
  source :: "string option"

record rtk_status =
  status_isRTKEnhanced :: bool
  status_source :: string
  status_accuracy :: "rat option"
  status_altitude :: "rat option"

record nearby_query =
  query_latitude :: rat
  query_longitude :: rat
  radius_meters :: nat
  limit :: nat

type_synonym ar_object = string

text \<open>
  What the viewer does to the outside during initialization, in the order it happens:
  the values it gives \<open>initializationStep\<close>, the calls it awaits, the pauses it awaits
  and the tracks it stops.
\<close>

datatype effect =
    SetStep nat
  | GetEnhancedLocation
  | GetUserMedia
  | StopTrack track
  | RefreshConnection
  | GetNearbyObjects nearby_query
  | Sleep nat

record viewer =
  currentLocation :: "location option"
  locationError :: "string option"
  initializationStep :: nat
  isInitialized :: bool
  nearbyObjects :: "ar_object list"
  cameraActive :: bool
  rtkStatus :: rtk_status
  trace :: "effect list"

text \<open>
  The outside of one run of \<open>initializeApp\<close>: how each awaited call settles
  (\<open>Inl\<close> a rejection), the clock, and what \<open>isMountedRef.current\<close> holds at each of the
  eight places the function reads it (0 to 6 in the \<open>try\<close> block from top to bottom, 7 in
  the \<open>catch\<close> block).
\<close>

record viewer_env =
  enhancedLocation :: "js_error + location"
  cameraPermission :: "js_error + media_stream"
  connectionRefresh :: "js_error option"
  nearbyResult :: "js_error + ar_object list option"
  dateNow :: int
  mountedAt :: "nat \<Rightarrow> bool"

text \<open>The \<open>fallbackLocation\<close> object of \<open>initializeLocation\<close>, for a reading of the clock.\<close>

definition fallbackLocation :: "int \<Rightarrow> location" where
  "fallbackLocation now =
     \<lparr>latitude = 37.7749, longitude = - 122.4194, altitude = Some 52, accuracy = Some 1000,
      timestamp = Some now, isFallback = True, isRTKEnhanced = None,
      source = Some ''Fallback Location''\<rparr>"

definition initializeLocation :: "viewer_env \<Rightarrow> viewer \<Rightarrow> viewer \<times> location" where
  "initializeLocation env v =
     (let v1 = v\<lparr>initializationStep := 1, trace := trace v @ [SetStep 1, GetEnhancedLocation]\<rparr>
      in case enhancedLocation env of
           Inr loc \<Rightarrow>
             (v1\<lparr>currentLocation := Some loc, locationError := None,
                 rtkStatus :=
                   \<lparr>status_isRTKEnhanced =
                      (case isRTKEnhanced loc of None \<Rightarrow> False | Some b \<Rightarrow> b),
                    status_source =
                      (case source loc of
                         None \<Rightarrow> ''Standard GPS''
                       | Some src \<Rightarrow> if src = [] then ''Standard GPS'' else src),
                    status_accuracy = accuracy loc,
                    status_altitude = altitude loc\<rparr>\<rparr>,
              loc)
         | Inl err \<Rightarrow>
             (v1\<lparr>locationError := Some (err_message err),
                 currentLocation := Some (fallbackLocation (dateNow env)),
                 rtkStatus :=
                   \<lparr>status_isRTKEnhanced = False, status_source = ''Fallback Location'',
                    status_accuracy = Some 1000, status_altitude = Some 52\<rparr>\<rparr>,
              fallbackLocation (dateNow env)))"

definition initializeCamera :: "viewer_env \<Rightarrow> viewer \<Rightarrow> viewer \<times> bool" where
  "initializeCamera env v =
     (let v1 = v\<lparr>initializationStep := 2, trace := trace v @ [SetStep 2, GetUserMedia]\<rparr>
      in case cameraPermission env of
           Inr stream \<Rightarrow>
             (v1\<lparr>trace := trace v1 @ map StopTrack (getTracks stream), cameraActive := True\<rparr>,
              True)
         | Inl err \<Rightarrow> (v1\<lparr>cameraActive := False\<rparr>, False))"

definition loadNearbyObjects ::
    "viewer_env \<Rightarrow> viewer \<Rightarrow> location \<Rightarrow> viewer \<times> ar_object list option" where
  "loadNearbyObjects env v loc =
     (let v1 = v\<lparr>initializationStep := 3,
                 trace := trace v @
                   [SetStep 3,
                    GetNearbyObjects
                      \<lparr>query_latitude = latitude loc, query_longitude = longitude loc,
                       radius_meters = 100, limit = 10\<rparr>]\<rparr>
      in case nearbyResult env of
           Inr objects \<Rightarrow>
             (v1\<lparr>nearbyObjects := (case objects of None \<Rightarrow> [] | Some os \<Rightarrow> os)\<rparr>, objects)
         | Inl err \<Rightarrow> (v1\<lparr>nearbyObjects := []\<rparr>, Some []))"

text \<open>
  The blocks of \<open>initializeApp\<close>: a pause (\<open>await\<close> on a timer), step 2 (the camera, if
  the component is mounted), step 3 (the connection and the nearby objects, if it is
  mounted) and step 4. Step 3 is the one part of the \<open>try\<close> block that can throw:
  \<open>refreshConnection\<close> is awaited outside any inner \<open>try\<close>.
\<close>

definition pause :: "nat \<Rightarrow> viewer \<Rightarrow> viewer" where
  "pause ms v = v\<lparr>trace := trace v @ [Sleep ms]\<rparr>"

definition cameraStep :: "viewer_env \<Rightarrow> viewer \<Rightarrow> viewer" where
  "cameraStep env v = (if mountedAt env 2 then fst (initializeCamera env v) else v)"

definition databaseStep :: "viewer_env \<Rightarrow> viewer \<Rightarrow> location \<Rightarrow> viewer \<times> js_error option" where
  "databaseStep env v loc =
     (if mountedAt env 4 then
        let v1 = v\<lparr>trace := trace v @ [RefreshConnection]\<rparr>
        in case connectionRefresh env of
             Some err \<Rightarrow> (v1, Some err)
           | None \<Rightarrow> (fst (loadNearbyObjects env v1 loc), None)
      else (v, None))"

definition completeStep :: "viewer_env \<Rightarrow> viewer \<Rightarrow> viewer" where
  "completeStep env v =
     (if mountedAt env 6 then
        v\<lparr>initializationStep := 4, isInitialized := True, trace := trace v @ [SetStep 4]\<rparr>
      else v)"

definition initializeApp :: "viewer_env \<Rightarrow> viewer \<Rightarrow> viewer" where
  "initializeApp env v =
     (if \<not> mountedAt env 0 then v
      else
        let started = initializeLocation env v in
        if \<not> mountedAt env 1 then fst started
        else
          let v3 = cameraStep env (pause 1000 (fst started)) in
          if \<not> mountedAt env 3 then v3
          else
            (case databaseStep env (pause 1000 v3) (snd started) of
               (v5, Some err) \<Rightarrow>
                 if mountedAt env 7 then v5\<lparr>isInitialized := True\<rparr> else v5
             | (v5, None) \<Rightarrow>
                 if \<not> mountedAt env 5 then v5 else completeStep env (pause 800 v5)))"

text \<open>What a run adds to the trace, and the values it gives \<open>initializationStep\<close>.\<close>

definition trace_made :: "viewer_env \<Rightarrow> viewer \<Rightarrow> effect list" where
  "trace_made env v = drop (length (trace v)) (trace (initializeApp env v))"

fun steps_of :: "effect list \<Rightarrow> nat list" where
  "steps_of [] = []"
| "steps_of (SetStep n # es) = n # steps_of es"
| "steps_of (e # es) = steps_of es"

text \<open>
  The step an effect belongs to: the value it gives \<open>initializationStep\<close>, or the step
  whose function makes the call. The pauses between the steps belong to none.
\<close>

fun phases_of :: "effect list \<Rightarrow> nat list" where
  "phases_of [] = []"
| "phases_of (SetStep n # es) = n # phases_of es"
| "phases_of (GetEnhancedLocation # es) = 1 # phases_of es"
| "phases_of (GetUserMedia # es) = 2 # phases_of es"
| "phases_of (StopTrack t # es) = 2 # phases_of es"
| "phases_of (RefreshConnection # es) = 3 # phases_of es"
| "phases_of (GetNearbyObjects q # es) = 3 # phases_of es"
| "phases_of (Sleep n # es) = phases_of es"

text \<open>The trace of a run in which the component stays mounted and nothing throws.\<close>

definition full_trace :: "viewer_env \<Rightarrow> effect list" where
  "full_trace env =
     [SetStep 1, GetEnhancedLocation, Sleep 1000, SetStep 2, GetUserMedia] @
     (case cameraPermission env of Inl err \<Rightarrow> [] | Inr stream \<Rightarrow> map StopTrack (getTracks stream)) @
     [Sleep 1000, RefreshConnection, SetStep 3,
      GetNearbyObjects
        \<lparr>query_latitude =
           latitude (case enhancedLocation env of
                       Inl err \<Rightarrow> fallbackLocation (dateNow env) | Inr loc \<Rightarrow> loc),
         query_longitude =
           longitude (case enhancedLocation env of
                        Inl err \<Rightarrow> fallbackLocation (dateNow env) | Inr loc \<Rightarrow> loc),
         radius_meters = 100, limit = 10\<rparr>,
      Sleep 800, SetStep 4]"

text \<open>
  The location the later steps receive, the tracks step 2 stops, the query step 3
  sends, and the trace of a run written out along the places where it may end early.
\<close>

definition located :: "viewer_env \<Rightarrow> location" where
  "located env = (case enhancedLocation env of
                       Inl err \<Rightarrow> fallbackLocation (dateNow env) | Inr loc \<Rightarrow> loc)"

definition stops :: "viewer_env \<Rightarrow> effect list" where
  "stops env = (case cameraPermission env of Inl err \<Rightarrow> [] | Inr stream \<Rightarrow> map StopTrack (getTracks stream))"

definition query_for :: "location \<Rightarrow> nearby_query" where
  "query_for loc = \<lparr>query_latitude = latitude loc, query_longitude = longitude loc,
                       radius_meters = 100, limit = 10\<rparr>"

definition closing :: "viewer_env \<Rightarrow> effect list" where
  "closing env = (if \<not> mountedAt env 5 then [] else Sleep 800 # (if mountedAt env 6 then [SetStep 4] else []))"

definition planned :: "viewer_env \<Rightarrow> effect list" where
  "planned env =
    (if \<not> mountedAt env 0 then []
     else [SetStep 1, GetEnhancedLocation] @
       (if \<not> mountedAt env 1 then []
        else Sleep 1000 # (if mountedAt env 2 then [SetStep 2, GetUserMedia] @ stops env else []) @
          (if \<not> mountedAt env 3 then []
           else Sleep 1000 #
             (if mountedAt env 4 then
                RefreshConnection #
                  (if connectionRefresh env = None then
                     [SetStep 3, GetNearbyObjects (query_for (located env))] @ closing env
                   else [])
              else closing env))))"

section \<open>blockdag-chain.js: switching the wallet's chain\<close>

text \<open>\<open>Number.prototype.toString(16)\<close> on a natural number.\<close>

definition hex_digit :: "nat \<Rightarrow> char" where
  "hex_digit d = ''0123456789abcdef'' ! d"

function toString16 :: "nat \<Rightarrow> string" where
  "toString16 n = (if n < 16 then [hex_digit n] else toString16 (n div 16) @ [hex_digit (n mod 16)])"
  by pat_completeness auto
termination
  by (relation "measure (\<lambda>n. n)") auto

record native_currency =
  currency_name :: string
  currency_symbol :: string
  decimals :: nat

record explorer =
  explorer_name :: string
  url :: string
  standard :: string

record chain =
  chainId :: nat
  chain_name :: string
  nativeCurrency :: native_currency
  rpc :: "string list"
  explorers :: "explorer list"

definition BlockDAGTestnet :: chain where
  "BlockDAGTestnet =
     \<lparr>chainId = 1043, chain_name = ''BlockDAG Primordial Testnet'',
      nativeCurrency = \<lparr>currency_name = ''BDAG'', currency_symbol = ''BDAG'', decimals = 18\<rparr>,
      rpc = [''https://test-rpc.primordial.bdagscan.com/''],
      explorers = [\<lparr>explorer_name = ''BlockDAG Explorer'',
                    url = ''https://explorer-testnet.blockdag.org'',
                    standard = ''EIP3091''\<rparr>]\<rparr>"

record add_chain_params =
  param_chainId :: string
  param_chainName :: string
  param_nativeCurrency :: native_currency
  param_rpcUrls :: "string list"
  param_blockExplorerUrls :: "string list"

datatype wallet_request =
    wallet_switchEthereumChain string
  | wallet_addEthereumChain add_chain_params

text \<open>
  The value a wallet rejects a request with: \<open>null\<close> or \<open>undefined\<close>, on which reading a
  property throws a \<open>TypeError\<close>, or any other value, known by its \<open>code\<close> property,
  which may be missing. The wallet: whether \<open>window.ethereum\<close> is there, and how it
  settles the two requests (\<open>None\<close> resolves).
\<close>

datatype rejection = Nullish | Thrown "int option"

record wallet =
  hasEthereum :: bool
  switchOutcome :: "rejection option"
  addOutcome :: "rejection option"

text \<open>How the promise of \<open>switchToBlockDAG\<close> settles.\<close>

datatype switch_result = ResolvesTo bool | RejectsWithTypeError

definition switchRequest :: wallet_request where
  "switchRequest = wallet_switchEthereumChain (''0x'' @ toString16 (chainId BlockDAGTestnet))"

definition addRequest :: wallet_request where
  "addRequest =
     wallet_addEthereumChain
       \<lparr>param_chainId = ''0x'' @ toString16 (chainId BlockDAGTestnet),
        param_chainName = chain_name BlockDAGTestnet,
        param_nativeCurrency = nativeCurrency BlockDAGTestnet,
        param_rpcUrls = rpc BlockDAGTestnet,
        param_blockExplorerUrls = map url (explorers BlockDAGTestnet)\<rparr>"

text \<open>
  \<open>switchToBlockDAG\<close>: how its promise settles, and the requests sent to the wallet. The
  \<open>catch\<close> of the switch request reads \<open>switchError.code\<close>; on a \<open>null\<close> or \<open>undefined\<close>
  rejection that read throws inside the \<open>catch\<close> block, and the promise rejects. The
  \<open>catch\<close> of the add request reads no property of its error.
\<close>

definition switchToBlockDAG :: "wallet \<Rightarrow> switch_result \<times> wallet_request list" where
  "switchToBlockDAG w =
     (if hasEthereum w then
        (case switchOutcome w of
           None \<Rightarrow> (ResolvesTo True, [switchRequest])
         | Some Nullish \<Rightarrow> (RejectsWithTypeError, [switchRequest])
         | Some (Thrown code) \<Rightarrow>
             if code = Some 4902 then
               (case addOutcome w of
                  None \<Rightarrow> (ResolvesTo True, [switchRequest, addRequest])
                | Some addError \<Rightarrow> (ResolvesTo False, [switchRequest, addRequest]))
             else (ResolvesTo False, [switchRequest]))
      else (ResolvesTo False, []))"

section \<open>Sample runs\<close>

text \<open>
  The camera component after its first render, with an \<open>onError\<close> prop and the video
  element mounted; the same component while it streams tracks 7 and 8.
\<close>

definition freshCamera :: camera where
  "freshCamera =
     \<lparr>streamRef = None, videoRef = Some (VideoElement None), isStreaming = False,
      error = None, retryCount = 0, isRetrying = False, cameraFacing = ''environment'',
      onErrorGiven = True, stopped = [], userMediaCalls = [], waits = [],
      onErrorCalls = [], activations = []\<rparr>"

definition streamingCamera :: camera where
  "streamingCamera =
     freshCamera\<lparr>streamRef := Some (MediaStream [7, 8]),
        videoRef := Some (VideoElement (Some (MediaStream [7, 8]))), isStreaming := True\<rparr>"

text \<open>
  Browsers: one that denies every request, one whose camera is busy at the first
  request only, one without \<open>navigator.mediaDevices\<close>, one that hands out a stream
  without tracks, and one whose streams
  (track \<open>n + 10\<close> at request \<open>n\<close>) never load in the video element.
\<close>

definition denyingBrowser :: browser where
  "denyingBrowser n = (Rejected (JsError ''NotAllowedError'' ''Permission denied''), LoadedMetadata)"

definition busyOnceBrowser :: browser where
  "busyOnceBrowser n =
     (if n = 0 then (Rejected (JsError ''NotReadableError'' ''Device in use''), LoadedMetadata)
      else (Resolved (Some (MediaStream [1])), LoadedMetadata))"

definition insecureOriginBrowser :: browser where
  "insecureOriginBrowser n =
     (NoMediaDevices ''Cannot read properties of undefined (reading getUserMedia)'',
      LoadedMetadata)"

definition tracklessBrowser :: browser where
  "tracklessBrowser n = (Resolved (Some (MediaStream [])), LoadedMetadata)"

definition stuckVideoBrowser :: browser where
  "stuckVideoBrowser n = (Resolved (Some (MediaStream [n + 10])), VideoFailed)"

text \<open>
  The viewer before initialization, and three outsides of a run: everything works;
  the location service and the camera fail; the connection refresh rejects.
\<close>

definition freshViewer :: viewer where
  "freshViewer =
     \<lparr>currentLocation = None, locationError = None, initializationStep = 0,
      isInitialized = False, nearbyObjects = [], cameraActive = False,
      rtkStatus = \<lparr>status_isRTKEnhanced = False, status_source = ''Standard GPS'',
                    status_accuracy = None, status_altitude = None\<rparr>,
      trace = []\<rparr>"

definition workingEnv :: viewer_env where
  "workingEnv =
     \<lparr>enhancedLocation =
        Inr \<lparr>latitude = 52.52, longitude = 13.405, altitude = Some 34, accuracy = Some 2,
             timestamp = Some 1700000000000, isFallback = False, isRTKEnhanced = Some True,
             source = Some ''RTK''\<rparr>,
      cameraPermission = Inr (MediaStream [3]),
      connectionRefresh = None,
      nearbyResult = Inr (Some [''agent-1'', ''agent-2'']),
      dateNow = 1700000000500,
      mountedAt = (\<lambda>n. True)\<rparr>"

definition failingEnv :: viewer_env where
  "failingEnv =
     workingEnv\<lparr>enhancedLocation := Inl (JsError ''GeolocationPositionError'' ''Timeout expired''),
        cameraPermission := Inl (JsError ''NotAllowedError'' ''Permission denied''),
        nearbyResult := Inl (JsError ''Error'' ''Database unreachable'')\<rparr>"

definition offlineEnv :: viewer_env where
  "offlineEnv = failingEnv\<lparr>connectionRefresh := Some (JsError ''Error'' ''Failed to fetch'')\<rparr>"

section \<open>The camera run, step by step\<close>

declare startCamera.simps [simp del]

lemma releaseStream_simps:
  "streamRef (releaseStream s) = None"
  "stopped (releaseStream s) = stopped s @ (case streamRef s of None \<Rightarrow> [] | Some st \<Rightarrow> getTracks st)"
  "videoRef (releaseStream s) = videoRef s"
  "isStreaming (releaseStream s) = isStreaming s"
  "error (releaseStream s) = error s"
  "retryCount (releaseStream s) = retryCount s"
  "isRetrying (releaseStream s) = isRetrying s"
  "cameraFacing (releaseStream s) = cameraFacing s"
  "onErrorGiven (releaseStream s) = onErrorGiven s"
  "userMediaCalls (releaseStream s) = userMediaCalls s"
  "waits (releaseStream s) = waits s"
  "onErrorCalls (releaseStream s) = onErrorCalls s"
  "activations (releaseStream s) = activations s"
  by (simp_all add: releaseStream_def split: option.splits)

lemma clearVideo_simps:
  "videoRef (clearVideo s) = map_option (\<lambda>v. VideoElement None) (videoRef s)"
  "streamRef (clearVideo s) = streamRef s"
  "stopped (clearVideo s) = stopped s"
  "isStreaming (clearVideo s) = isStreaming s"
  "error (clearVideo s) = error s"
  "retryCount (clearVideo s) = retryCount s"
  "isRetrying (clearVideo s) = isRetrying s"
  "cameraFacing (clearVideo s) = cameraFacing s"
  "onErrorGiven (clearVideo s) = onErrorGiven s"
  "userMediaCalls (clearVideo s) = userMediaCalls s"
  "waits (clearVideo s) = waits s"
  "onErrorCalls (clearVideo s) = onErrorCalls s"
  "activations (clearVideo s) = activations s"
  by (simp_all add: clearVideo_def split: option.splits)

lemma tryStart_effects:
  "activations (fst (tryStart br s l a)) = activations s @ [(l, a)]"
  "userMediaCalls (fst (tryStart br s l a)) = userMediaCalls s @ requests_of br s l"
  "waits (fst (tryStart br s l a)) = waits s @ [delay a]"
  "onErrorCalls (fst (tryStart br s l a)) = onErrorCalls s"
  "onErrorGiven (fst (tryStart br s l a)) = onErrorGiven s"
  "cameraFacing (fst (tryStart br s l a)) = cameraFacing s"
  "error (fst (tryStart br s l a)) = None"
  by (simp_all add: tryStart_def Let_def releaseStream_simps clearVideo_simps requests_of_def
      split: user_media_outcome.splits option.splits video_outcome.splits)

lemma tryStart_videoRef:
  "videoRef (fst (tryStart br s l a)) = None \<longleftrightarrow> videoRef s = None"
  by (simp add: tryStart_def Let_def releaseStream_simps clearVideo_simps
      split: user_media_outcome.splits option.splits video_outcome.splits)

lemma tryStart_stopped:
  "stopped (fst (tryStart br s l a)) = stopped s @ heldTracks s"
  by (simp add: tryStart_def Let_def releaseStream_simps clearVideo_simps heldTracks_def
      split: user_media_outcome.splits option.splits video_outcome.splits)

lemma tryStart_succeeds:
  assumes "snd (tryStart br s l a) = None"
  shows "isStreaming (fst (tryStart br s l a)) \<and> streamRef (fst (tryStart br s l a)) \<noteq> None"
  using assms
  by (auto simp: tryStart_def Let_def
      split: user_media_outcome.splits option.splits video_outcome.splits if_splits)

lemmas tryStart_more = tryStart_videoRef tryStart_stopped

lemma afterCatch_simps:
  "streamRef (afterCatch br s l a) = None"
  "videoCleared (afterCatch br s l a)"
  "activations (afterCatch br s l a) = activations s @ [(l, a)]"
  "userMediaCalls (afterCatch br s l a) = userMediaCalls s @ requests_of br s l"
  "waits (afterCatch br s l a) = waits s @ [delay a]"
  "onErrorCalls (afterCatch br s l a) = onErrorCalls s"
  "onErrorGiven (afterCatch br s l a) = onErrorGiven s"
  "cameraFacing (afterCatch br s l a) = cameraFacing s"
  "error (afterCatch br s l a) = None"
  "videoRef (afterCatch br s l a) = None \<longleftrightarrow> videoRef s = None"
  "stopped (afterCatch br s l a) =
     stopped s @ heldTracks s @ heldTracks (fst (tryStart br s l a))"
  by (simp_all add: afterCatch_def releaseStream_simps clearVideo_simps tryStart_effects
      tryStart_more videoCleared_def heldTracks_def split: option.splits)

lemma startCamera_success:
  "snd (tryStart br s l a) = None \<Longrightarrow> startCamera br s l a = fst (tryStart br s l a)"
  by (cases "tryStart br s l a") (simp add: startCamera.simps)

lemma startCamera_retry:
  "snd (tryStart br s l a) = Some err \<Longrightarrow> a < maxAttempts \<Longrightarrow>
   startCamera br s l a = startCamera br (retryState br s l a) l (a + 1)"
  by (cases "tryStart br s l a")
     (simp add: startCamera.simps [of br s l a] Let_def retryState_def afterCatch_def)

lemma startCamera_fallback:
  "snd (tryStart br s l a) = Some err \<Longrightarrow> \<not> a < maxAttempts \<Longrightarrow>
   l < maxConstraintLevels - 1 \<Longrightarrow>
   startCamera br s l a = startCamera br (fallbackState br s l a) (l + 1) 1"
  by (cases "tryStart br s l a")
     (simp add: startCamera.simps [of br s l a] Let_def fallbackState_def afterCatch_def)

lemma startCamera_give_up:
  "snd (tryStart br s l a) = Some err \<Longrightarrow> \<not> a < maxAttempts \<Longrightarrow>
   \<not> l < maxConstraintLevels - 1 \<Longrightarrow>
   startCamera br s l a = failedState br s l a err"
  by (cases "tryStart br s l a")
     (simp add: startCamera.simps [of br s l a] Let_def failedState_def afterCatch_def)

lemma startCamera_run_induct [case_names success retry fallback give_up]:
  assumes success: "\<And>br s l a. snd (tryStart br s l a) = None \<Longrightarrow> P br s l a"
    and retry: "\<And>br s l a err. snd (tryStart br s l a) = Some err \<Longrightarrow> a < maxAttempts \<Longrightarrow>
        P br (retryState br s l a) l (a + 1) \<Longrightarrow> P br s l a"
    and fallback: "\<And>br s l a err. snd (tryStart br s l a) = Some err \<Longrightarrow>
        \<not> a < maxAttempts \<Longrightarrow> l < maxConstraintLevels - 1 \<Longrightarrow>
        P br (fallbackState br s l a) (l + 1) 1 \<Longrightarrow> P br s l a"
    and give_up: "\<And>br s l a err. snd (tryStart br s l a) = Some err \<Longrightarrow>
        \<not> a < maxAttempts \<Longrightarrow> \<not> l < maxConstraintLevels - 1 \<Longrightarrow> P br s l a"
  shows "P br s l a"
proof (induction br s l a rule: startCamera.induct)
  case (1 br s l a)
  show ?case
  proof (cases "snd (tryStart br s l a)")
    case None
    then show ?thesis by (rule success)
  next
    case (Some err)
    have t: "(fst (tryStart br s l a), Some err) = tryStart br s l a"
      using Some by (simp add: prod_eq_iff)
    show ?thesis
    proof (cases "a < maxAttempts")
      case True
      have "P br (retryState br s l a) l (a + 1)"
        using "1.IH"(1) [OF t refl refl True]
        by (simp add: retryState_def afterCatch_def)
      with Some True show ?thesis by (rule retry)
    next
      case False
      show ?thesis
      proof (cases "l < maxConstraintLevels - 1")
        case True
        have "P br (fallbackState br s l a) (l + 1) 1"
          using "1.IH"(2) [OF t refl refl False True]
          by (simp add: fallbackState_def afterCatch_def)
        with Some False True show ?thesis by (rule fallback)
      next
        case lf: False
        from Some False lf show ?thesis by (rule give_up)
      qed
    qed
  qed
qed

lemma handed_simps:
  "activations (retryState br s l a) = activations s @ [(l, a)]"
  "activations (fallbackState br s l a) = activations s @ [(l, a)]"
  "activations (failedState br s l a err) = activations s @ [(l, a)]"
  "userMediaCalls (retryState br s l a) = userMediaCalls s @ requests_of br s l"
  "userMediaCalls (fallbackState br s l a) = userMediaCalls s @ requests_of br s l"
  "userMediaCalls (failedState br s l a err) = userMediaCalls s @ requests_of br s l"
  "waits (retryState br s l a) = waits s @ [delay a, 1000]"
  "waits (fallbackState br s l a) = waits s @ [delay a, 1000]"
  "waits (failedState br s l a err) = waits s @ [delay a]"
  "onErrorCalls (retryState br s l a) = onErrorCalls s"
  "onErrorCalls (fallbackState br s l a) = onErrorCalls s"
  "onErrorCalls (failedState br s l a err) = (if onErrorGiven s then onErrorCalls s @ [err] else onErrorCalls s)"
  "onErrorGiven (retryState br s l a) = onErrorGiven s"
  "onErrorGiven (fallbackState br s l a) = onErrorGiven s"
  "cameraFacing (retryState br s l a) = cameraFacing s"
  "cameraFacing (fallbackState br s l a) = cameraFacing s"
  "error (retryState br s l a) = None"
  "error (fallbackState br s l a) = None"
  "error (failedState br s l a err) = Some (getCameraErrorMessage err)"
  "isStreaming (failedState br s l a err) = False"
  "streamRef (failedState br s l a err) = None"
  "streamRef (retryState br s l a) = None"
  "streamRef (fallbackState br s l a) = None"
  by (simp_all add: retryState_def fallbackState_def failedState_def afterCatch_simps)

lemma failedState_videoCleared: "videoCleared (failedState br s l a err)"
  using afterCatch_simps(2) [of br s l a]
  by (simp add: videoCleared_def failedState_def)

lemma activations_grow:
  "\<exists>new. activations (startCamera br s l a) = activations s @ (l, a) # new"
proof (induction br s l a rule: startCamera_run_induct)
  case (success br s l a)
  then show ?case by (simp add: startCamera_success tryStart_effects)
next
  case (retry br s l a err)
  then show ?case by (auto simp: startCamera_retry handed_simps)
next
  case (fallback br s l a err)
  then show ?case by (auto simp: startCamera_fallback handed_simps)
next
  case (give_up br s l a err)
  then show ?case by (simp add: startCamera_give_up handed_simps)
qed

lemma activations_split:
  "activations (startCamera br s l a) = activations s @ attempts_made br s l a"
  using activations_grow [of br s l a] by (auto simp: attempts_made_def)

lemma attempts_made_success:
  "snd (tryStart br s l a) = None \<Longrightarrow> attempts_made br s l a = [(l, a)]"
  by (simp add: attempts_made_def startCamera_success tryStart_effects)

lemma attempts_made_retry:
  assumes "snd (tryStart br s l a) = Some err" "a < maxAttempts"
  shows "attempts_made br s l a = (l, a) # attempts_made br (retryState br s l a) l (a + 1)"
proof -
  have "activations s @ attempts_made br s l a =
        activations s @ (l, a) # attempts_made br (retryState br s l a) l (a + 1)"
    using activations_split [of br s l a] activations_split [of br "retryState br s l a" l "a + 1"]
    by (simp add: startCamera_retry [OF assms] handed_simps)
  then show ?thesis by simp
qed

lemma attempts_made_fallback:
  assumes "snd (tryStart br s l a) = Some err" "\<not> a < maxAttempts" "l < maxConstraintLevels - 1"
  shows "attempts_made br s l a = (l, a) # attempts_made br (fallbackState br s l a) (l + 1) 1"
proof -
  have "activations s @ attempts_made br s l a =
        activations s @ (l, a) # attempts_made br (fallbackState br s l a) (l + 1) 1"
    using activations_split [of br s l a]
      activations_split [of br "fallbackState br s l a" "l + 1" 1]
    by (simp add: startCamera_fallback [OF assms] handed_simps)
  then show ?thesis by simp
qed

lemma attempts_made_give_up:
  "snd (tryStart br s l a) = Some err \<Longrightarrow> \<not> a < maxAttempts \<Longrightarrow>
   \<not> l < maxConstraintLevels - 1 \<Longrightarrow> attempts_made br s l a = [(l, a)]"
  by (simp add: attempts_made_def startCamera_give_up handed_simps)

lemma attempts_made_nonempty: "attempts_made br s l a \<noteq> []"
  using activations_grow [of br s l a] by (auto simp: attempts_made_def)


lemma requests_of_length: "length (requests_of br s l) \<le> 1"
  by (simp add: requests_of_def split: user_media_outcome.splits)

lemma requests_of_defined:
  "\<forall>n msg. fst (br n) \<noteq> NoMediaDevices msg \<Longrightarrow>
   requests_of br s l = [getConstraints (cameraFacing s) l]"
  by (simp add: requests_of_def split: user_media_outcome.splits)

lemma calls_follow_attempts:
  "\<forall>n msg. fst (br n) \<noteq> NoMediaDevices msg \<Longrightarrow>
   userMediaCalls (startCamera br s l a) =
     userMediaCalls s @ map (\<lambda>p. getConstraints (cameraFacing s) (fst p)) (attempts_made br s l a)"
proof (induction br s l a rule: startCamera_run_induct)
  case (success br s l a)
  then show ?case
    by (simp add: startCamera_success attempts_made_success tryStart_effects requests_of_defined)
next
  case (retry br s l a err)
  then show ?case
    by (simp add: startCamera_retry attempts_made_retry handed_simps requests_of_defined)
next
  case (fallback br s l a err)
  then show ?case
    by (simp add: startCamera_fallback attempts_made_fallback handed_simps requests_of_defined)
next
  case (give_up br s l a err)
  then show ?case
    by (simp add: startCamera_give_up attempts_made_give_up handed_simps requests_of_defined)
qed

lemma calls_within_attempts:
  "\<exists>more. userMediaCalls (startCamera br s l a) = userMediaCalls s @ more \<and>
     length more \<le> length (attempts_made br s l a)"
proof (induction br s l a rule: startCamera_run_induct)
  case (success br s l a)
  then show ?case
    using requests_of_length [of br s l]
    by (simp add: startCamera_success attempts_made_success tryStart_effects)
next
  case (retry br s l a err)
  then show ?case
    using requests_of_length [of br s l]
    by (auto simp: startCamera_retry attempts_made_retry handed_simps)
next
  case (fallback br s l a err)
  then show ?case
    using requests_of_length [of br s l]
    by (auto simp: startCamera_fallback attempts_made_fallback handed_simps)
next
  case (give_up br s l a err)
  then show ?case
    using requests_of_length [of br s l]
    by (simp add: startCamera_give_up attempts_made_give_up handed_simps)
qed

lemma attempts_made_bound:
  "length (attempts_made br s l a) \<le> (3 - a) + 1 + 3 * (4 - l)"
proof (induction br s l a rule: startCamera_run_induct)
  case (success br s l a)
  then show ?case by (simp add: attempts_made_success)
next
  case (retry br s l a err)
  then show ?case by (simp add: attempts_made_retry maxAttempts_def)
next
  case (fallback br s l a err)
  then show ?case
    by (simp add: attempts_made_fallback maxAttempts_def maxConstraintLevels_def)
next
  case (give_up br s l a err)
  then show ?case by (simp add: attempts_made_give_up)
qed

lemma attempts_levels:
  "p \<in> set (attempts_made br s l a) \<Longrightarrow> l \<le> fst p \<and> fst p \<le> max l 4"
proof (induction br s l a rule: startCamera_run_induct)
  case (success br s l a)
  then show ?case by (simp add: attempts_made_success)
next
  case (retry br s l a err)
  then show ?case by (auto simp: attempts_made_retry)
next
  case (fallback br s l a err)
  then show ?case
    by (auto simp: attempts_made_fallback maxConstraintLevels_def)
next
  case (give_up br s l a err)
  then show ?case by (simp add: attempts_made_give_up)
qed

lemma attempts_per_level:
  "length (filter (\<lambda>p. fst p = k) (attempts_made br s l a)) \<le> (if k = l then (3 - a) + 1 else 3)"
proof (induction br s l a rule: startCamera_run_induct)
  case (success br s l a)
  then show ?case by (simp add: attempts_made_success)
next
  case (retry br s l a err)
  then show ?case by (auto simp: attempts_made_retry maxAttempts_def split: if_splits)
next
  case (fallback br s l a err)
  have "filter (\<lambda>p. fst p = l) (attempts_made br (fallbackState br s l a) (l + 1) 1) = []"
    using attempts_levels [of _ br "fallbackState br s l a" "l + 1" 1]
    by (fastforce simp: filter_empty_conv)
  with fallback show ?case
    by (auto simp: attempts_made_fallback maxAttempts_def maxConstraintLevels_def split: if_splits)
next
  case (give_up br s l a err)
  then show ?case by (simp add: attempts_made_give_up)
qed

lemma startCamera_outcome:
  "(error (startCamera br s l a) = None \<and> isStreaming (startCamera br s l a) \<and>
      streamRef (startCamera br s l a) \<noteq> None) \<or>
   (error (startCamera br s l a) \<noteq> None \<and> \<not> isStreaming (startCamera br s l a) \<and>
      streamRef (startCamera br s l a) = None \<and> videoCleared (startCamera br s l a))"
proof (induction br s l a rule: startCamera_run_induct)
  case (success br s l a)
  then show ?case
    using tryStart_succeeds [of br s l a] by (simp add: startCamera_success tryStart_effects)
next
  case (retry br s l a err)
  then show ?case by (simp add: startCamera_retry)
next
  case (fallback br s l a err)
  then show ?case by (simp add: startCamera_fallback)
next
  case (give_up br s l a err)
  then show ?case
    by (simp add: startCamera_give_up handed_simps failedState_videoCleared)
qed



lemma with_retry_waits_Cons:
  "ds \<noteq> [] \<Longrightarrow> with_retry_waits (d # ds) = d # 1000 # with_retry_waits ds"
  by (cases ds) simp_all

lemma waits_follow_attempts:
  "waits (startCamera br s l a) =
     waits s @ with_retry_waits (map (\<lambda>p. delay (snd p)) (attempts_made br s l a))"
proof (induction br s l a rule: startCamera_run_induct)
  case (success br s l a)
  then show ?case by (simp add: startCamera_success attempts_made_success tryStart_effects)
next
  case (retry br s l a err)
  then show ?case
    using attempts_made_nonempty [of br "retryState br s l a" l "a + 1"]
    by (simp add: startCamera_retry attempts_made_retry handed_simps with_retry_waits_Cons)
next
  case (fallback br s l a err)
  then show ?case
    using attempts_made_nonempty [of br "fallbackState br s l a" "l + 1" 1]
    by (simp add: startCamera_fallback attempts_made_fallback handed_simps with_retry_waits_Cons)
next
  case (give_up br s l a err)
  then show ?case by (simp add: startCamera_give_up attempts_made_give_up handed_simps)
qed

lemma tryStart_keeps_acquired:
  assumes "fst (br (length (userMediaCalls s))) = Resolved (Some st)"
  shows "set (getTracks st) \<subseteq> set (heldTracks (fst (tryStart br s l a)))"
  using assms
  by (simp add: tryStart_def Let_def heldTracks_def releaseStream_simps clearVideo_simps
      split: option.splits video_outcome.splits)

lemma stopped_grows:
  "\<exists>more. stopped (startCamera br s l a) = stopped s @ heldTracks s @ more"
proof (induction br s l a rule: startCamera_run_induct)
  case (success br s l a)
  then show ?case by (simp add: startCamera_success tryStart_more)
next
  case (retry br s l a err)
  then show ?case
    by (auto simp: startCamera_retry retryState_def afterCatch_simps)
next
  case (fallback br s l a err)
  then show ?case
    by (auto simp: startCamera_fallback fallbackState_def afterCatch_simps)
next
  case (give_up br s l a err)
  then show ?case
    by (simp add: startCamera_give_up failedState_def afterCatch_simps)
qed

lemma acquired_released:
  assumes "error (startCamera br s l a) \<noteq> None"
    and "length (userMediaCalls s) \<le> i" and "i < length (userMediaCalls (startCamera br s l a))"
    and "fst (br i) = Resolved (Some st)"
  shows "set (getTracks st) \<subseteq> set (stopped (startCamera br s l a))"
  using assms
proof (induction br s l a rule: startCamera_run_induct)
  case (success br s l a)
  then show ?case by (simp add: startCamera_success tryStart_effects)
next
  case (retry br s l a err)
  show ?case
  proof (cases "i = length (userMediaCalls s)")
    case True
    have "set (getTracks st) \<subseteq> set (stopped (retryState br s l a))"
      using tryStart_keeps_acquired [of br s st l a] retry.prems(4) True
      by (auto simp: retryState_def afterCatch_simps)
    moreover have "set (stopped (retryState br s l a)) \<subseteq> set (stopped (startCamera br s l a))"
      using stopped_grows [of br "retryState br s l a" l "a + 1"] retry.hyps
      by (auto simp: startCamera_retry)
    ultimately show ?thesis by blast
  next
    case False
    with retry requests_of_length [of br s l] show ?thesis
      by (simp add: startCamera_retry handed_simps)
  qed
next
  case (fallback br s l a err)
  show ?case
  proof (cases "i = length (userMediaCalls s)")
    case True
    have "set (getTracks st) \<subseteq> set (stopped (fallbackState br s l a))"
      using tryStart_keeps_acquired [of br s st l a] fallback.prems(4) True
      by (auto simp: fallbackState_def afterCatch_simps)
    moreover have "set (stopped (fallbackState br s l a)) \<subseteq> set (stopped (startCamera br s l a))"
      using stopped_grows [of br "fallbackState br s l a" "l + 1" 1] fallback.hyps
      by (auto simp: startCamera_fallback)
    ultimately show ?thesis by blast
  next
    case False
    with fallback requests_of_length [of br s l] show ?thesis
      by (simp add: startCamera_fallback handed_simps)
  qed
next
  case (give_up br s l a err)
  then have "i = length (userMediaCalls s)"
    using requests_of_length [of br s l]
    by (simp add: startCamera_give_up handed_simps)
  then show ?case
    using tryStart_keeps_acquired [of br s st l a] give_up
    by (auto simp: startCamera_give_up failedState_def afterCatch_simps)
qed

lemma stopCamera_simps:
  "streamRef (stopCamera s) = None"
  "videoCleared (stopCamera s)"
  "\<not> isStreaming (stopCamera s)"
  "stopped (stopCamera s) = stopped s @ heldTracks s"
  "error (stopCamera s) = error s"
  by (simp_all add: stopCamera_def releaseStream_simps clearVideo_simps videoCleared_def
      heldTracks_def split: option.splits)

section \<open>The initialization run, block by block\<close>

lemma phases_of_append: "phases_of (xs @ ys) = phases_of xs @ phases_of ys"
  by (induction xs rule: phases_of.induct) simp_all

lemma steps_of_append: "steps_of (xs @ ys) = steps_of xs @ steps_of ys"
  by (induction xs rule: steps_of.induct) simp_all

lemma phases_of_StopTrack: "phases_of (map StopTrack ts) = replicate (length ts) 2"
  by (induction ts) simp_all

lemma steps_of_StopTrack: "steps_of (map StopTrack ts) = []"
  by (induction ts) simp_all

lemma initializeLocation_simps:
  "trace (fst (initializeLocation env v)) = trace v @ [SetStep 1, GetEnhancedLocation]"
  "isInitialized (fst (initializeLocation env v)) = isInitialized v"
  "snd (initializeLocation env v) = located env"
  by (simp_all add: initializeLocation_def located_def Let_def split: sum.splits)

lemma pause_simps:
  "trace (pause ms v) = trace v @ [Sleep ms]"
  "isInitialized (pause ms v) = isInitialized v"
  by (simp_all add: pause_def)

lemma cameraStep_simps:
  "trace (cameraStep env v) =
     trace v @ (if mountedAt env 2 then [SetStep 2, GetUserMedia] @ stops env else [])"
  "isInitialized (cameraStep env v) = isInitialized v"
  by (simp_all add: cameraStep_def initializeCamera_def stops_def Let_def split: sum.splits)

lemma databaseStep_simps:
  "trace (fst (databaseStep env v loc)) =
     trace v @ (if mountedAt env 4 then
                  RefreshConnection #
                    (if connectionRefresh env = None then [SetStep 3, GetNearbyObjects (query_for loc)]
                     else [])
                else [])"
  "isInitialized (fst (databaseStep env v loc)) = isInitialized v"
  "snd (databaseStep env v loc) = (if mountedAt env 4 then connectionRefresh env else None)"
  by (simp_all add: databaseStep_def loadNearbyObjects_def query_for_def Let_def
      split: sum.splits option.splits)

lemma completeStep_simps:
  "trace (completeStep env v) = trace v @ (if mountedAt env 6 then [SetStep 4] else [])"
  "isInitialized (completeStep env v) = (mountedAt env 6 \<or> isInitialized v)"
  by (simp_all add: completeStep_def)

lemmas stage_simps = initializeLocation_simps pause_simps cameraStep_simps databaseStep_simps
  completeStep_simps

lemma initializeApp_unfold:
  "initializeApp env v =
     (if \<not> mountedAt env 0 then v
      else if \<not> mountedAt env 1 then fst (initializeLocation env v)
      else if \<not> mountedAt env 3 then cameraStep env (pause 1000 (fst (initializeLocation env v)))
      else if snd (databaseStep env (pause 1000 (cameraStep env (pause 1000 (fst (initializeLocation env v))))) (located env)) \<noteq> None
      then (if mountedAt env 7 then (fst (databaseStep env (pause 1000 (cameraStep env (pause 1000 (fst (initializeLocation env v))))) (located env)))\<lparr>isInitialized := True\<rparr>
            else fst (databaseStep env (pause 1000 (cameraStep env (pause 1000 (fst (initializeLocation env v))))) (located env)))
      else if \<not> mountedAt env 5 then fst (databaseStep env (pause 1000 (cameraStep env (pause 1000 (fst (initializeLocation env v))))) (located env))
      else completeStep env (pause 800 (fst (databaseStep env (pause 1000 (cameraStep env (pause 1000 (fst (initializeLocation env v))))) (located env)))))"
  by (simp add: initializeApp_def Let_def initializeLocation_simps(3) split: prod.splits option.splits)

lemma trace_initializeApp: "trace (initializeApp env v) = trace v @ planned env"
  unfolding initializeApp_unfold
  by (simp add: stage_simps planned_def closing_def)

lemma trace_made_planned: "trace_made env v = planned env"
  by (simp add: trace_made_def trace_initializeApp)

lemma phases_of_stops: "phases_of (stops env) = replicate (length (stops env)) 2"
  by (simp add: stops_def phases_of_StopTrack split: sum.splits)

lemma steps_of_stops: "steps_of (stops env) = []"
  by (simp add: stops_def steps_of_StopTrack split: sum.splits)

lemma steps_planned:
  "sorted_wrt (<) (steps_of (planned env)) \<and> set (steps_of (planned env)) \<subseteq> {1, 2, 3, 4}"
  by (simp add: planned_def closing_def steps_of_append steps_of_stops)

lemma phases_planned: "sorted (phases_of (planned env))"
  by (simp add: planned_def closing_def phases_of_append phases_of_stops sorted_append)

lemma planned_full:
  "(\<forall>n. mountedAt env n) \<Longrightarrow> connectionRefresh env = None \<Longrightarrow> planned env = full_trace env"
  by (simp add: planned_def closing_def full_trace_def stops_def located_def query_for_def)

lemma steps_full: "steps_of (full_trace env) = [1, 2, 3, 4]"
  by (simp add: full_trace_def steps_of_append steps_of_StopTrack split: sum.splits)

lemma isInitialized_mounted:
  "(\<forall>n. mountedAt env n) \<Longrightarrow> isInitialized (initializeApp env v)"
  unfolding initializeApp_unfold by (simp add: stage_simps)

lemma step_four:
  "(\<forall>n. mountedAt env n) \<Longrightarrow> connectionRefresh env = None \<Longrightarrow>
   initializationStep (initializeApp env v) = 4"
  unfolding initializeApp_unfold by (simp add: stage_simps completeStep_def)

section \<open>Properties of the constraint levels\<close>

lemma length_constraintLevels: "length (constraintLevels f) = 5"
  by (simp add: constraintLevels_def)

text \<open>
  C9. \<open>getConstraints\<close> is total on the natural numbers and clamps its argument: every
  level yields a constraint object (the index never leaves the array), and every level
  from 4 on yields the constraint object of level 4.
\<close>

theorem getConstraints_total_clamped:
  "(\<exists>c. getConstraints f level = Some c) \<and>
   (4 \<le> level \<longrightarrow> getConstraints f level = getConstraints f 4)"
proof
  have "min level (length (constraintLevels f) - 1) < length (constraintLevels f)"
    by (simp add: length_constraintLevels)
  then show "\<exists>c. getConstraints f level = Some c"
    by (simp add: getConstraints_def js_index_def)
next
  show "4 \<le> level \<longrightarrow> getConstraints f level = getConstraints f 4"
    by (simp add: getConstraints_def length_constraintLevels min_def)
qed

theorem getConstraints_total_clamped_witness:
  "(\<exists>c. getConstraints ''environment'' 9 = Some c) \<and>
   (4::nat) \<le> 9 \<and>
   getConstraints ''environment'' 9 = getConstraints ''environment'' 4 \<and>
   getConstraints ''environment'' 9 =
     Some \<lparr>video = VideoTrack \<lparr>facingMode = Some ''environment'',
          width = Some \<lparr>ideal = Some 1280, max_limit = Some 1920\<rparr>,
          height = Some \<lparr>ideal = Some 720, max_limit = Some 1080\<rparr>,
          frameRate = Some \<lparr>ideal = Some 30, max_limit = Some 60\<rparr>\<rparr>, audio = False\<rparr>"
proof -
  have four: "getConstraints ''environment'' 4 =
     Some \<lparr>video = VideoTrack \<lparr>facingMode = Some ''environment'',
          width = Some \<lparr>ideal = Some 1280, max_limit = Some 1920\<rparr>,
          height = Some \<lparr>ideal = Some 720, max_limit = Some 1080\<rparr>,
          frameRate = Some \<lparr>ideal = Some 30, max_limit = Some 60\<rparr>\<rparr>, audio = False\<rparr>"
    by (simp add: getConstraints_def js_index_def constraintLevels_def)
  from getConstraints_total_clamped [of "''environment''" 9] four show ?thesis
    by simp
qed

section \<open>Sample runs, evaluated\<close>

lemma calls_made_eq:
  "\<forall>n msg. fst (br n) \<noteq> NoMediaDevices msg \<Longrightarrow>
   calls_made br s l a =
     map (\<lambda>p. getConstraints (cameraFacing s) (fst p)) (attempts_made br s l a)"
  by (simp add: calls_made_def calls_follow_attempts)

lemma calls_made_le: "length (calls_made br s l a) \<le> length (attempts_made br s l a)"
  using calls_within_attempts [of br s l a] by (auto simp: calls_made_def)

lemma denied_defined: "\<forall>n msg. fst (denyingBrowser n) \<noteq> NoMediaDevices msg"
  by (simp add: denyingBrowser_def)

lemmas denied_calls = calls_made_eq [OF denied_defined]

lemma waits_made_eq:
  "waits_made br s l a = with_retry_waits (map (\<lambda>p. delay (snd p)) (attempts_made br s l a))"
  by (simp add: waits_made_def waits_follow_attempts)

lemma levels_tried_card: "card (fst ` set (attempts_made br s l a)) \<le> 5"
proof -
  have "fst ` set (attempts_made br s l a) \<subseteq> {l..max l 4}"
    using attempts_levels [of _ br s l a] by auto
  then have "card (fst ` set (attempts_made br s l a)) \<le> card {l..max l 4}"
    by (intro card_mono) simp_all
  also have "\<dots> \<le> 5" by simp
  finally show ?thesis .
qed

lemma denied_throws:
  "snd (tryStart denyingBrowser s l a) = Some (JsError ''NotAllowedError'' ''Permission denied'')"
  by (simp add: tryStart_def denyingBrowser_def Let_def)

lemma denied_attempts:
  "attempts_made denyingBrowser s l a =
     (l, a) #
     (if a < 3 then attempts_made denyingBrowser (retryState denyingBrowser s l a) l (a + 1)
      else if l < 4 then
        attempts_made denyingBrowser (fallbackState denyingBrowser s l a) (l + 1) 1
      else [])"
  using attempts_made_retry [OF denied_throws, of a s l]
    attempts_made_fallback [OF denied_throws, of a l s]
    attempts_made_give_up [OF denied_throws, of a l s]
  by (simp add: maxAttempts_def maxConstraintLevels_def)

lemma insecure_throws:
  "snd (tryStart insecureOriginBrowser s l a) =
     Some (JsError ''TypeError'' ''Cannot read properties of undefined (reading getUserMedia)'')"
  by (simp add: tryStart_def insecureOriginBrowser_def Let_def)

lemma insecure_attempts:
  "attempts_made insecureOriginBrowser s l a =
     (l, a) #
     (if a < 3 then
        attempts_made insecureOriginBrowser (retryState insecureOriginBrowser s l a) l (a + 1)
      else if l < 4 then
        attempts_made insecureOriginBrowser (fallbackState insecureOriginBrowser s l a) (l + 1) 1
      else [])"
  using attempts_made_retry [OF insecure_throws, of a s l]
    attempts_made_fallback [OF insecure_throws, of a l s]
    attempts_made_give_up [OF insecure_throws, of a l s]
  by (simp add: maxAttempts_def maxConstraintLevels_def)

lemma insecure_requests: "requests_of insecureOriginBrowser s l = []"
  by (simp add: requests_of_def insecureOriginBrowser_def)

lemma insecure_calls:
  "br = insecureOriginBrowser \<Longrightarrow> userMediaCalls (startCamera br s l a) = userMediaCalls s"
proof (induction br s l a rule: startCamera_run_induct)
  case (success br s l a)
  then show ?case by (simp add: insecure_throws)
next
  case (retry br s l a err)
  then show ?case by (simp add: startCamera_retry handed_simps insecure_requests)
next
  case (fallback br s l a err)
  then show ?case by (simp add: startCamera_fallback handed_simps insecure_requests)
next
  case (give_up br s l a err)
  then show ?case by (simp add: startCamera_give_up handed_simps insecure_requests)
qed

lemma denied_message:
  "getCameraErrorMessage (JsError ''NotAllowedError'' ''Permission denied'') =
     ''Camera access denied. Please allow camera permissions and refresh the page.''"
  by (simp add: getCameraErrorMessage_def)

lemma denied_error:
  "br = denyingBrowser \<Longrightarrow>
   error (startCamera br s l a) =
     Some ''Camera access denied. Please allow camera permissions and refresh the page.''"
proof (induction br s l a rule: startCamera_run_induct)
  case (success br s l a)
  then show ?case by (simp add: denied_throws)
next
  case (retry br s l a err)
  then show ?case by (simp add: startCamera_retry)
next
  case (fallback br s l a err)
  then show ?case by (simp add: startCamera_fallback)
next
  case (give_up br s l a err)
  then show ?case
    by (auto simp: startCamera_give_up handed_simps denied_throws denied_message)
qed

lemma denied_schedule:
  "attempts_made denyingBrowser s 0 1 =
     [(0, 1), (0, 2), (0, 3), (1, 1), (1, 2), (1, 3), (2, 1), (2, 2), (2, 3),
      (3, 1), (3, 2), (3, 3), (4, 1), (4, 2), (4, 3)]"
  by (simp add: denied_attempts)

lemmas denied_schedule_Suc = denied_schedule [unfolded One_nat_def]

lemma fresh_fields:
  "userMediaCalls freshCamera = []" "onErrorCalls freshCamera = []" "onErrorGiven freshCamera"
  "cameraFacing freshCamera = ''environment''" "streamRef freshCamera = None"
  "videoRef freshCamera = Some (VideoElement None)" "stopped freshCamera = []"
  by (simp_all add: freshCamera_def)

lemma streaming_fields:
  "userMediaCalls streamingCamera = []" "heldTracks streamingCamera = [7, 8]"
  "videoRef streamingCamera = Some (VideoElement (Some (MediaStream [7, 8])))"
  "stopped streamingCamera = []" "isStreaming streamingCamera"
  by (simp_all add: streamingCamera_def freshCamera_def heldTracks_def)

section \<open>The claims about the camera's retry logic\<close>

text \<open>
  C1. Progressive relaxation would mean: when all attempts at one level fail, the next
  level's constraint set relaxes the one just tried. The code does the opposite at
  every fallback: the array runs from the simplest set to the fullest, \<open>startCamera\<close>
  moves from level \<open>k\<close> to level \<open>k + 1\<close> (logging "Trying simpler constraints"), and
  each next level makes a demand the level before it does not make, so it relaxes
  nothing; where the values agree, it is the earlier level that relaxes the later one.
  A run in which every request is denied asks for the levels 0 to 4 in this order.
\<close>

theorem fallback_levels_add_demands:
  "\<not> relaxes_level (getConstraints f 1) (getConstraints f 0) \<and>
   \<not> relaxes_level (getConstraints f 2) (getConstraints f 1) \<and>
   \<not> relaxes_level (getConstraints f 3) (getConstraints f 2) \<and>
   \<not> relaxes_level (getConstraints f 4) (getConstraints f 3) \<and>
   relaxes_level (getConstraints f 0) (getConstraints f 1) \<and>
   relaxes_level (getConstraints f 1) (getConstraints f 2) \<and>
   relaxes_level (getConstraints f 3) (getConstraints f 4) \<and>
   calls_made denyingBrowser freshCamera 0 1 =
     map (getConstraints ''environment'') [0, 0, 0, 1, 1, 1, 2, 2, 2, 3, 3, 3, 4, 4, 4]"
proof -
  have levels: "\<not> relaxes_level (getConstraints f 1) (getConstraints f 0) \<and>
   \<not> relaxes_level (getConstraints f 2) (getConstraints f 1) \<and>
   \<not> relaxes_level (getConstraints f 3) (getConstraints f 2) \<and>
   \<not> relaxes_level (getConstraints f 4) (getConstraints f 3) \<and>
   relaxes_level (getConstraints f 0) (getConstraints f 1) \<and>
   relaxes_level (getConstraints f 1) (getConstraints f 2) \<and>
   relaxes_level (getConstraints f 3) (getConstraints f 4)"
    by (simp add: relaxes_level_def relaxation_of_def getConstraints_def js_index_def
        constraintLevels_def)
  have "calls_made denyingBrowser freshCamera 0 1 =
     map (getConstraints ''environment'') [0, 0, 0, 1, 1, 1, 2, 2, 2, 3, 3, 3, 4, 4, 4]"
    by (simp add: denied_calls denied_schedule_Suc fresh_fields)
  with levels show ?thesis by simp
qed

text \<open>
  C2. Every invocation of \<open>startCamera\<close> returns (the function is total), and it returns
  after at most 15 calls of \<open>getUserMedia\<close>: at most one call per activation (exactly one
  where \<open>navigator.mediaDevices\<close> is defined), at most 3 activations at any one
  constraint level, at most 5 levels; on return the component either streams
  with no error, or does not stream and reports an error. Every call site passes an
  attempt number of at least 1.
\<close>

theorem startCamera_bounded:
  assumes "1 \<le> attempt"
  shows "length (calls_made br s level attempt) \<le> 15 \<and>
    length (calls_made br s level attempt) \<le> length (attempts_made br s level attempt) \<and>
    ((\<forall>n msg. fst (br n) \<noteq> NoMediaDevices msg) \<longrightarrow>
       length (calls_made br s level attempt) = length (attempts_made br s level attempt)) \<and>
    (\<forall>k. length (filter (\<lambda>p. fst p = k) (attempts_made br s level attempt)) \<le> 3) \<and>
    card (fst ` set (attempts_made br s level attempt)) \<le> 5 \<and>
    (isStreaming (startCamera br s level attempt) \<and>
       error (startCamera br s level attempt) = None \<or>
     \<not> isStreaming (startCamera br s level attempt) \<and>
       error (startCamera br s level attempt) \<noteq> None)"
proof -
  have "length (attempts_made br s level attempt) \<le> (3 - attempt) + 1 + 3 * (4 - level)"
    by (rule attempts_made_bound)
  with assms have bound: "length (attempts_made br s level attempt) \<le> 15"
    by simp
  have per_level: "length (filter (\<lambda>p. fst p = k) (attempts_made br s level attempt)) \<le> 3" for k
    using attempts_per_level [of k br s level attempt] assms by (simp split: if_splits)
  have calls: "length (calls_made br s level attempt) \<le> length (attempts_made br s level attempt)"
    by (rule calls_made_le)
  have exact: "(\<forall>n msg. fst (br n) \<noteq> NoMediaDevices msg) \<longrightarrow>
      length (calls_made br s level attempt) = length (attempts_made br s level attempt)"
    by (simp add: calls_made_eq)
  from bound calls have "length (calls_made br s level attempt) \<le> 15"
    by simp
  with calls exact per_level levels_tried_card [of br s level attempt]
    startCamera_outcome [of br s level attempt]
  show ?thesis
    by auto
qed

theorem startCamera_bounded_witness:
  "(1::nat) \<le> 1 \<and>
   (\<forall>n msg. fst (denyingBrowser n) \<noteq> NoMediaDevices msg) \<and>
   length (attempts_made denyingBrowser freshCamera 0 1) = 15 \<and>
   length (calls_made denyingBrowser freshCamera 0 1) = 15 \<and>
   length (filter (\<lambda>p. fst p = 2) (attempts_made denyingBrowser freshCamera 0 1)) = 3 \<and>
   card (fst ` set (attempts_made denyingBrowser freshCamera 0 1)) = 5 \<and>
   \<not> isStreaming (startCamera denyingBrowser freshCamera 0 1) \<and>
   error (startCamera denyingBrowser freshCamera 0 1) =
     Some ''Camera access denied. Please allow camera permissions and refresh the page.''"
proof -
  have one: "(1::nat) \<le> 1" by simp
  have levels: "fst ` set (attempts_made denyingBrowser freshCamera 0 1) = {0, 1, 2, 3, 4}"
    by (auto simp: denied_schedule_Suc)
  from startCamera_bounded [OF one, of denyingBrowser freshCamera 0] levels denied_defined
  show ?thesis
    by (simp add: denied_schedule_Suc denied_error)
qed



text \<open>
  C6. Each activation of \<open>startCamera\<close> makes at most one \<open>getUserMedia\<close> call, and
  exactly one where \<open>navigator.mediaDevices\<close> is defined: its \<open>try\<close> block then adds one
  call, with the constraints of its level, its \<open>catch\<close> block adds none, and so the calls
  of a whole run are those of its activations, one each. Where \<open>navigator.mediaDevices\<close>
  is undefined the activation throws a \<open>TypeError\<close> and makes no call. A resolved value
  that is \<open>null\<close>, or a stream without tracks, makes the attempt fail with the error
  "No camera stream received", and no stream is kept.
\<close>

theorem one_request_per_attempt:
  "((\<forall>msg. fst (br (length (userMediaCalls s))) \<noteq> NoMediaDevices msg) \<longrightarrow>
      userMediaCalls (fst (tryStart br s l a)) =
        userMediaCalls s @ [getConstraints (cameraFacing s) l]) \<and>
   (fst (br (length (userMediaCalls s))) = NoMediaDevices msg \<longrightarrow>
      userMediaCalls (fst (tryStart br s l a)) = userMediaCalls s \<and>
      snd (tryStart br s l a) = Some (JsError ''TypeError'' msg)) \<and>
   userMediaCalls (afterCatch br s l a) = userMediaCalls (fst (tryStart br s l a)) \<and>
   length (calls_made br s l a) \<le> length (attempts_made br s l a) \<and>
   ((\<forall>n msg. fst (br n) \<noteq> NoMediaDevices msg) \<longrightarrow>
      calls_made br s l a =
        map (\<lambda>p. getConstraints (cameraFacing s) (fst p)) (attempts_made br s l a)) \<and>
   (fst (br (length (userMediaCalls s))) = Resolved None \<or>
    (\<exists>st. fst (br (length (userMediaCalls s))) = Resolved (Some st) \<and> getTracks st = []) \<longrightarrow>
      snd (tryStart br s l a) = Some (JsError ''Error'' ''No camera stream received'') \<and>
      streamRef (fst (tryStart br s l a)) = None)"
proof -
  have one: "(\<forall>msg. fst (br (length (userMediaCalls s))) \<noteq> NoMediaDevices msg) \<longrightarrow>
      userMediaCalls (fst (tryStart br s l a)) =
        userMediaCalls s @ [getConstraints (cameraFacing s) l]"
    by (simp add: tryStart_effects requests_of_def split: user_media_outcome.splits)
  have none: "fst (br (length (userMediaCalls s))) = NoMediaDevices msg \<longrightarrow>
      userMediaCalls (fst (tryStart br s l a)) = userMediaCalls s \<and>
      snd (tryStart br s l a) = Some (JsError ''TypeError'' msg)"
    by (simp add: tryStart_def Let_def releaseStream_simps clearVideo_simps)
  have caught: "userMediaCalls (afterCatch br s l a) = userMediaCalls (fst (tryStart br s l a))"
    by (simp add: tryStart_effects afterCatch_simps)
  have at_most: "length (calls_made br s l a) \<le> length (attempts_made br s l a)"
    by (rule calls_made_le)
  have exact: "(\<forall>n msg. fst (br n) \<noteq> NoMediaDevices msg) \<longrightarrow>
      calls_made br s l a =
        map (\<lambda>p. getConstraints (cameraFacing s) (fst p)) (attempts_made br s l a)"
    by (simp add: calls_made_eq)
  have empty: "fst (br (length (userMediaCalls s))) = Resolved None \<or>
    (\<exists>st. fst (br (length (userMediaCalls s))) = Resolved (Some st) \<and> getTracks st = []) \<longrightarrow>
      snd (tryStart br s l a) = Some (JsError ''Error'' ''No camera stream received'') \<and>
      streamRef (fst (tryStart br s l a)) = None"
    by (auto simp: tryStart_def Let_def releaseStream_simps clearVideo_simps)
  from one none caught at_most exact empty show ?thesis
    by (intro conjI)
qed

theorem one_request_per_attempt_witness:
  "(\<forall>msg. fst (tracklessBrowser (length (userMediaCalls freshCamera))) \<noteq> NoMediaDevices msg) \<and>
   fst (tracklessBrowser (length (userMediaCalls freshCamera))) = Resolved (Some (MediaStream [])) \<and>
   getTracks (MediaStream []) = [] \<and>
   userMediaCalls (fst (tryStart tracklessBrowser freshCamera 0 1)) =
     [getConstraints ''environment'' 0] \<and>
   snd (tryStart tracklessBrowser freshCamera 0 1) =
     Some (JsError ''Error'' ''No camera stream received'') \<and>
   streamRef (fst (tryStart tracklessBrowser freshCamera 0 1)) = None \<and>
   (\<forall>n msg. fst (denyingBrowser n) \<noteq> NoMediaDevices msg) \<and>
   calls_made denyingBrowser freshCamera 4 2 =
     [getConstraints ''environment'' 4, getConstraints ''environment'' 4] \<and>
   snd (tryStart insecureOriginBrowser freshCamera 0 1) =
     Some (JsError ''TypeError'' ''Cannot read properties of undefined (reading getUserMedia)'')"
proof -
  let ?m = "''Cannot read properties of undefined (reading getUserMedia)''"
  have given: "fst (tracklessBrowser (length (userMediaCalls freshCamera))) =
      Resolved (Some (MediaStream []))"
    by (simp add: tracklessBrowser_def)
  have absent: "fst (insecureOriginBrowser (length (userMediaCalls freshCamera))) =
      NoMediaDevices ?m"
    by (simp add: insecureOriginBrowser_def)
  have two: "attempts_made denyingBrowser freshCamera 4 2 = [(4, 2), (4, 3)]"
    by (simp add: denied_attempts)
  have trackless: "userMediaCalls (fst (tryStart tracklessBrowser freshCamera 0 1)) =
     [getConstraints ''environment'' 0] \<and>
   snd (tryStart tracklessBrowser freshCamera 0 1) =
     Some (JsError ''Error'' ''No camera stream received'') \<and>
   streamRef (fst (tryStart tracklessBrowser freshCamera 0 1)) = None"
    using one_request_per_attempt [of tracklessBrowser freshCamera 0 1] given
    by (simp add: fresh_fields)
  have denied: "calls_made denyingBrowser freshCamera 4 2 =
     [getConstraints ''environment'' 4, getConstraints ''environment'' 4]"
    using one_request_per_attempt [of denyingBrowser freshCamera 4 2] denied_defined two
    by (simp add: fresh_fields)
  have insecure: "snd (tryStart insecureOriginBrowser freshCamera 0 1) =
     Some (JsError ''TypeError'' ?m)"
    using one_request_per_attempt [of insecureOriginBrowser freshCamera 0 1 ?m] absent
    by simp
  from given trackless denied denied_defined insecure show ?thesis
    by simp
qed

text \<open>
  Exactly one call per activation fails in a browser without \<open>navigator.mediaDevices\<close>:
  the first activation makes no call, and the whole run makes 15 activations and no
  call at all.
\<close>

theorem one_request_per_attempt_counterexample:
  "activations (fst (tryStart insecureOriginBrowser freshCamera 0 1)) = [(0, 1)] \<and>
   userMediaCalls (fst (tryStart insecureOriginBrowser freshCamera 0 1)) = [] \<and>
   length (attempts_made insecureOriginBrowser freshCamera 0 1) = 15 \<and>
   calls_made insecureOriginBrowser freshCamera 0 1 = []"
proof -
  have first: "activations (fst (tryStart insecureOriginBrowser freshCamera 0 1)) = [(0, 1)] \<and>
      userMediaCalls (fst (tryStart insecureOriginBrowser freshCamera 0 1)) = []"
    by (simp add: tryStart_effects insecure_requests freshCamera_def)
  have run: "length (attempts_made insecureOriginBrowser freshCamera 0 1) = 15"
    by (simp add: insecure_attempts)
  have calls: "calls_made insecureOriginBrowser freshCamera 0 1 = []"
    by (simp add: calls_made_def insecure_calls)
  from first run calls show ?thesis
    by simp
qed

text \<open>
  C7. The retry loop backs off. The delay before the camera request is 100 ms for
  attempt 1 and \<open>500 + 200 * attempt\<close> ms for a later attempt, and it never decreases
  as the attempt number grows. A further 1000 ms is awaited before every retry and
  before every fallback to the next level: the delays of a run are the pre-attempt
  delays of its activations with 1000 between each two.
\<close>

theorem retry_backs_off:
  "(a \<le> b \<longrightarrow> delay a \<le> delay b) \<and>
   delay 1 = 100 \<and>
   (1 < a \<longrightarrow> delay a = 500 + 200 * a) \<and>
   waits (retryState br s l n) = waits s @ [delay n, 1000] \<and>
   waits (fallbackState br s l n) = waits s @ [delay n, 1000] \<and>
   waits_made br s l n =
     with_retry_waits (map (\<lambda>p. delay (snd p)) (attempts_made br s l n))"
  by (simp add: delay_def handed_simps waits_made_eq)

theorem retry_backs_off_witness:
  "(2::nat) \<le> 3 \<and> delay 2 = 900 \<and> delay 3 = 1100 \<and> delay 2 \<le> delay 3 \<and>
   waits_made denyingBrowser freshCamera 4 2 = [900, 1000, 1100] \<and>
   waits_made denyingBrowser freshCamera 3 3 = [1100, 1000, 100, 1000, 900, 1000, 1100]"
proof -
  have two: "attempts_made denyingBrowser freshCamera 4 2 = [(4, 2), (4, 3)]"
    by (simp add: denied_attempts)
  have four: "attempts_made denyingBrowser freshCamera 3 3 = [(3, 3), (4, 1), (4, 2), (4, 3)]"
    by (simp add: denied_attempts)
  from retry_backs_off [of 2 3 denyingBrowser freshCamera 4 2]
    retry_backs_off [of 2 3 denyingBrowser freshCamera 3 3]
  show ?thesis
    by (simp add: two four delay_def)
qed

text \<open>
  C10. Camera resources are released on every stop and on the final failure. After
  \<open>stopCamera\<close>, and after a run of \<open>startCamera\<close> that ends with an error, the stream
  ref is null, the video element (if there is one) shows no stream, \<open>isStreaming\<close> is
  false, and \<open>stop()\<close> was called on every track of the stream held before; after the
  failed run also on every track of every stream that \<open>getUserMedia\<close> handed out during
  the run.
\<close>

theorem camera_released:
  "streamRef (stopCamera s) = None \<and> videoCleared (stopCamera s) \<and>
   \<not> isStreaming (stopCamera s) \<and>
   set (heldTracks s) \<subseteq> set (stopped (stopCamera s)) \<and>
   (error (startCamera br s l a) \<noteq> None \<longrightarrow>
      streamRef (startCamera br s l a) = None \<and> videoCleared (startCamera br s l a) \<and>
      \<not> isStreaming (startCamera br s l a) \<and>
      set (heldTracks s) \<subseteq> set (stopped (startCamera br s l a)) \<and>
      (\<forall>i st. length (userMediaCalls s) \<le> i \<and>
          i < length (userMediaCalls (startCamera br s l a)) \<and>
          fst (br i) = Resolved (Some st) \<longrightarrow>
          set (getTracks st) \<subseteq> set (stopped (startCamera br s l a))))"
proof -
  let ?r = "startCamera br s l a"
  have stop: "streamRef (stopCamera s) = None \<and> videoCleared (stopCamera s) \<and>
      \<not> isStreaming (stopCamera s) \<and> set (heldTracks s) \<subseteq> set (stopped (stopCamera s))"
    by (simp add: stopCamera_simps)
  have failure: "error ?r \<noteq> None \<longrightarrow>
      streamRef ?r = None \<and> videoCleared ?r \<and> \<not> isStreaming ?r \<and>
      set (heldTracks s) \<subseteq> set (stopped ?r) \<and>
      (\<forall>i st. length (userMediaCalls s) \<le> i \<and> i < length (userMediaCalls ?r) \<and>
          fst (br i) = Resolved (Some st) \<longrightarrow>
          set (getTracks st) \<subseteq> set (stopped ?r))"
  proof
    assume e: "error ?r \<noteq> None"
    with startCamera_outcome [of br s l a]
    have state: "streamRef ?r = None \<and> videoCleared ?r \<and> \<not> isStreaming ?r"
      by simp
    have held: "set (heldTracks s) \<subseteq> set (stopped ?r)"
      using stopped_grows [of br s l a] by auto
    have acquired: "\<forall>i st. length (userMediaCalls s) \<le> i \<and> i < length (userMediaCalls ?r) \<and>
          fst (br i) = Resolved (Some st) \<longrightarrow>
          set (getTracks st) \<subseteq> set (stopped ?r)"
    proof (intro allI impI)
      fix i st
      assume "length (userMediaCalls s) \<le> i \<and> i < length (userMediaCalls ?r) \<and>
          fst (br i) = Resolved (Some st)"
      then have "length (userMediaCalls s) \<le> i" "i < length (userMediaCalls ?r)"
        "fst (br i) = Resolved (Some st)"
        by simp_all
      with e show "set (getTracks st) \<subseteq> set (stopped ?r)"
        by (rule acquired_released)
    qed
    from state held acquired
    show "streamRef ?r = None \<and> videoCleared ?r \<and> \<not> isStreaming ?r \<and>
      set (heldTracks s) \<subseteq> set (stopped ?r) \<and>
      (\<forall>i st. length (userMediaCalls s) \<le> i \<and> i < length (userMediaCalls ?r) \<and>
          fst (br i) = Resolved (Some st) \<longrightarrow>
          set (getTracks st) \<subseteq> set (stopped ?r))"
      by (intro conjI) simp_all
  qed
  from stop failure show ?thesis
    by (intro conjI) simp_all
qed

lemma stuck_throws:
  "videoRef s \<noteq> None \<Longrightarrow>
   snd (tryStart stuckVideoBrowser s l a) =
     Some (JsError ''Error'' ''Video element failed to load stream'') \<and>
   heldTracks (fst (tryStart stuckVideoBrowser s l a)) = [length (userMediaCalls s) + 10]"
  by (auto simp: tryStart_def stuckVideoBrowser_def Let_def releaseStream_simps clearVideo_simps
      heldTracks_def)

lemma stuck_run:
  "startCamera stuckVideoBrowser streamingCamera 4 3 =
     failedState stuckVideoBrowser streamingCamera 4 3
       (JsError ''Error'' ''Video element failed to load stream'')"
  using stuck_throws [of streamingCamera 4 3]
  by (intro startCamera_give_up)
     (simp_all add: streaming_fields maxAttempts_def maxConstraintLevels_def)

theorem camera_released_witness:
  "heldTracks streamingCamera = [7, 8] \<and>
   streamRef (stopCamera streamingCamera) = None \<and>
   videoCleared (stopCamera streamingCamera) \<and>
   \<not> isStreaming (stopCamera streamingCamera) \<and>
   stopped (stopCamera streamingCamera) = [7, 8] \<and>
   error (startCamera stuckVideoBrowser streamingCamera 4 3) =
     Some ''Video display error. Please refresh the page and try again.'' \<and>
   fst (stuckVideoBrowser 0) = Resolved (Some (MediaStream [10])) \<and>
   length (userMediaCalls (startCamera stuckVideoBrowser streamingCamera 4 3)) = 1 \<and>
   stopped (startCamera stuckVideoBrowser streamingCamera 4 3) = [7, 8, 10] \<and>
   streamRef (startCamera stuckVideoBrowser streamingCamera 4 3) = None \<and>
   videoCleared (startCamera stuckVideoBrowser streamingCamera 4 3) \<and>
   \<not> isStreaming (startCamera stuckVideoBrowser streamingCamera 4 3)"
proof -
  let ?r = "startCamera stuckVideoBrowser streamingCamera 4 3"
  have message: "getCameraErrorMessage (JsError ''Error'' ''Video element failed to load stream'') =
      ''Video display error. Please refresh the page and try again.''"
    by (simp add: getCameraErrorMessage_def)
  have failed: "error ?r = Some ''Video display error. Please refresh the page and try again.''"
    by (simp add: stuck_run handed_simps message)
  have given: "fst (stuckVideoBrowser 0) = Resolved (Some (MediaStream [10]))"
    by (simp add: stuckVideoBrowser_def)
  have calls: "length (userMediaCalls ?r) = 1"
    by (simp add: stuck_run handed_simps streaming_fields requests_of_def stuckVideoBrowser_def)
  have tracks: "stopped ?r = [7, 8, 10]"
    using stuck_throws [of streamingCamera 4 3]
    by (simp add: stuck_run failedState_def afterCatch_simps streaming_fields)
  from camera_released [of streamingCamera stuckVideoBrowser 4 3] failed given calls tracks
  show ?thesis
    by (simp add: streaming_fields stopCamera_simps)
qed

lemma initializationStep_simps:
  "initializationStep (fst (initializeLocation env v)) = 1"
  "initializationStep (pause ms v) = initializationStep v"
  "initializationStep (cameraStep env v) = (if mountedAt env 2 then 2 else initializationStep v)"
  "initializationStep (fst (databaseStep env v loc)) =
     (if mountedAt env 4 \<and> connectionRefresh env = None then 3 else initializationStep v)"
  by (simp_all add: initializeLocation_def pause_def cameraStep_def initializeCamera_def
      databaseStep_def loadNearbyObjects_def Let_def split: sum.splits option.splits)

lemma env_fields:
  "mountedAt workingEnv n" "mountedAt failingEnv n" "mountedAt offlineEnv n"
  "connectionRefresh workingEnv = None" "connectionRefresh failingEnv = None"
  "connectionRefresh offlineEnv = Some (JsError ''Error'' ''Failed to fetch'')"
  "cameraPermission workingEnv = Inr (MediaStream [3])"
  "enhancedLocation failingEnv = Inl (JsError ''GeolocationPositionError'' ''Timeout expired'')"
  "enhancedLocation offlineEnv = Inl (JsError ''GeolocationPositionError'' ''Timeout expired'')"
  "cameraPermission offlineEnv = Inl (JsError ''NotAllowedError'' ''Permission denied'')"
  "dateNow failingEnv = 1700000000500"
  "trace freshViewer = []" "\<not> isInitialized freshViewer"
  by (simp_all add: workingEnv_def failingEnv_def offlineEnv_def freshViewer_def)

lemma working_located:
  "latitude (located workingEnv) = 52.52" "longitude (located workingEnv) = 13.405"
  by (simp_all add: located_def workingEnv_def)

section \<open>The claims about the initialization sequence\<close>

text \<open>
  C3. \<open>initializeApp\<close> performs its steps in the fixed order location, camera, database
  and objects, ready. In every run the values given to \<open>initializationStep\<close> are strictly
  increasing values among 1, 2, 3, 4, and no effect of a step (the value it sets, the
  call it awaits) comes before an effect of an earlier step: each awaited call has
  settled when the next effect happens. Not every run takes all four values: a run ends
  early when the component unmounts or the connection refresh rejects. In a run in
  which the component stays mounted and the connection refresh resolves, the effects
  are exactly those of the full sequence, the values are 1, 2, 3, 4, and the state ends
  at 4.
\<close>

theorem initializeApp_in_order:
  "sorted_wrt (<) (steps_of (trace_made env v)) \<and>
   set (steps_of (trace_made env v)) \<subseteq> {1, 2, 3, 4} \<and>
   sorted (phases_of (trace_made env v)) \<and>
   ((\<forall>n. mountedAt env n) \<and> connectionRefresh env = None \<longrightarrow>
      trace_made env v = full_trace env \<and>
      steps_of (trace_made env v) = [1, 2, 3, 4] \<and>
      initializationStep (initializeApp env v) = 4)"
proof -
  have complete: "(\<forall>n. mountedAt env n) \<and> connectionRefresh env = None \<longrightarrow>
      trace_made env v = full_trace env \<and>
      steps_of (trace_made env v) = [1, 2, 3, 4] \<and>
      initializationStep (initializeApp env v) = 4"
    by (simp add: trace_made_planned planned_full steps_full step_four)
  have steps: "sorted_wrt (<) (steps_of (trace_made env v)) \<and>
      set (steps_of (trace_made env v)) \<subseteq> {1, 2, 3, 4}"
    by (simp only: trace_made_planned steps_planned)
  have phases: "sorted (phases_of (trace_made env v))"
    by (simp only: trace_made_planned phases_planned)
  from steps phases complete show ?thesis
    by blast
qed

theorem initializeApp_in_order_witness:
  "(\<forall>n. mountedAt workingEnv n) \<and> connectionRefresh workingEnv = None \<and>
   trace_made workingEnv freshViewer =
     [SetStep 1, GetEnhancedLocation, Sleep 1000, SetStep 2, GetUserMedia, StopTrack 3,
      Sleep 1000, RefreshConnection, SetStep 3,
      GetNearbyObjects \<lparr>query_latitude = 52.52, query_longitude = 13.405,
        radius_meters = 100, limit = 10\<rparr>,
      Sleep 800, SetStep 4] \<and>
   steps_of (trace_made workingEnv freshViewer) = [1, 2, 3, 4] \<and>
   initializationStep (initializeApp workingEnv freshViewer) = 4 \<and>
   steps_of (trace_made offlineEnv freshViewer) = [1, 2] \<and>
   phases_of (trace_made offlineEnv freshViewer) = [1, 1, 2, 2, 3]"
proof -
  have mounted: "\<forall>n. mountedAt workingEnv n"
    by (simp add: env_fields)
  have full: "full_trace workingEnv =
     [SetStep 1, GetEnhancedLocation, Sleep 1000, SetStep 2, GetUserMedia, StopTrack 3,
      Sleep 1000, RefreshConnection, SetStep 3,
      GetNearbyObjects \<lparr>query_latitude = 52.52, query_longitude = 13.405,
        radius_meters = 100, limit = 10\<rparr>,
      Sleep 800, SetStep 4]"
    by (simp add: full_trace_def workingEnv_def)
  have offline: "trace_made offlineEnv freshViewer =
      [SetStep 1, GetEnhancedLocation, Sleep 1000, SetStep 2, GetUserMedia, Sleep 1000,
       RefreshConnection]"
    by (simp add: trace_made_planned planned_def stops_def env_fields)
  from initializeApp_in_order [of workingEnv freshViewer]
    initializeApp_in_order [of offlineEnv freshViewer] mounted full offline
  show ?thesis
    by (simp add: env_fields)
qed

text \<open>
  The values 1, 2, 3, 4 are not taken in every run: when the connection refresh rejects,
  the run sets 1 and 2 only, and the \<open>catch\<close> block still marks the viewer initialized.
\<close>

theorem initializeApp_in_order_counterexample:
  "steps_of (trace_made offlineEnv freshViewer) = [1, 2] \<and>
   steps_of (trace_made offlineEnv freshViewer) \<noteq> [1, 2, 3, 4] \<and>
   initializationStep (initializeApp offlineEnv freshViewer) = 2 \<and>
   isInitialized (initializeApp offlineEnv freshViewer)"
proof -
  have steps: "steps_of (trace_made offlineEnv freshViewer) = [1, 2]"
    by (simp add: trace_made_planned planned_def stops_def env_fields)
  have step: "initializationStep (initializeApp offlineEnv freshViewer) = 2"
    unfolding initializeApp_unfold
    by (simp add: env_fields databaseStep_simps initializationStep_simps)
  have ready: "isInitialized (initializeApp offlineEnv freshViewer)"
    by (simp add: isInitialized_mounted env_fields)
  from steps step ready show ?thesis
    by simp
qed

text \<open>
  C5. \<open>initializeApp\<close> degrades gracefully. Whatever the location service, the camera,
  the connection refresh and the object query do, a run in which the component stays
  mounted ends with \<open>isInitialized\<close> true. \<open>initializeLocation\<close> always returns a
  location: the service's when it resolves, the fallback location when it rejects, in
  which case the fallback is also stored as the current location and is the location
  the object query is made for.
\<close>

theorem initializeApp_degrades:
  "((\<forall>n. mountedAt env n) \<longrightarrow> isInitialized (initializeApp env v)) \<and>
   snd (initializeLocation env v) =
     (case enhancedLocation env of
        Inl err \<Rightarrow> fallbackLocation (dateNow env) | Inr loc \<Rightarrow> loc) \<and>
   (enhancedLocation env = Inl err \<longrightarrow>
      currentLocation (fst (initializeLocation env v)) = Some (fallbackLocation (dateNow env)) \<and>
      locationError (fst (initializeLocation env v)) = Some (err_message err)) \<and>
   ((\<forall>n. mountedAt env n) \<and> connectionRefresh env = None \<and> enhancedLocation env = Inl err \<longrightarrow>
      GetNearbyObjects \<lparr>query_latitude = 37.7749, query_longitude = - 122.4194,
        radius_meters = 100, limit = 10\<rparr> \<in> set (trace_made env v))"
proof -
  have ready: "(\<forall>n. mountedAt env n) \<longrightarrow> isInitialized (initializeApp env v)"
    by (simp add: isInitialized_mounted)
  have returned: "snd (initializeLocation env v) =
     (case enhancedLocation env of
        Inl err \<Rightarrow> fallbackLocation (dateNow env) | Inr loc \<Rightarrow> loc)"
    by (simp add: initializeLocation_simps located_def)
  have stored: "enhancedLocation env = Inl err \<longrightarrow>
      currentLocation (fst (initializeLocation env v)) = Some (fallbackLocation (dateNow env)) \<and>
      locationError (fst (initializeLocation env v)) = Some (err_message err)"
    by (simp add: initializeLocation_def Let_def)
  have queried: "(\<forall>n. mountedAt env n) \<and> connectionRefresh env = None \<and>
      enhancedLocation env = Inl err \<longrightarrow>
      GetNearbyObjects \<lparr>query_latitude = 37.7749, query_longitude = - 122.4194,
        radius_meters = 100, limit = 10\<rparr> \<in> set (trace_made env v)"
    by (simp add: trace_made_planned planned_full full_trace_def fallbackLocation_def)
  from ready returned stored queried show ?thesis
    by (intro conjI)
qed

theorem initializeApp_degrades_witness:
  "(\<forall>n. mountedAt failingEnv n) \<and> (\<forall>n. mountedAt offlineEnv n) \<and>
   enhancedLocation failingEnv = Inl (JsError ''GeolocationPositionError'' ''Timeout expired'') \<and>
   connectionRefresh failingEnv = None \<and>
   isInitialized (initializeApp failingEnv freshViewer) \<and>
   isInitialized (initializeApp offlineEnv freshViewer) \<and>
   initializationStep (initializeApp offlineEnv freshViewer) = 2 \<and>
   snd (initializeLocation failingEnv freshViewer) = fallbackLocation 1700000000500 \<and>
   locationError (fst (initializeLocation failingEnv freshViewer)) = Some ''Timeout expired'' \<and>
   GetNearbyObjects \<lparr>query_latitude = 37.7749, query_longitude = - 122.4194,
     radius_meters = 100, limit = 10\<rparr> \<in> set (trace_made failingEnv freshViewer)"
proof -
  let ?e = "JsError ''GeolocationPositionError'' ''Timeout expired''"
  have mounted: "\<forall>n. mountedAt failingEnv n" "\<forall>n. mountedAt offlineEnv n"
    by (simp_all add: env_fields)
  have caught: "initializationStep (initializeApp offlineEnv freshViewer) = 2"
    unfolding initializeApp_unfold
    by (simp add: env_fields databaseStep_simps initializationStep_simps)
  from initializeApp_degrades [of failingEnv freshViewer ?e]
    initializeApp_degrades [of offlineEnv freshViewer ?e] mounted caught
  show ?thesis
    by (simp add: env_fields)
qed

section \<open>The claim about the chain switch\<close>

declare toString16.simps [simp del]

lemma chain_id_hex: "toString16 (chainId BlockDAGTestnet) = ''413''"
  by (simp add: BlockDAGTestnet_def toString16.simps hex_digit_def)

lemma requests_differ: "addRequest \<noteq> switchRequest"
  by (simp add: switchRequest_def addRequest_def)

text \<open>
  C8. \<open>switchToBlockDAG\<close> resolves to a boolean whenever the wallet does not reject the
  switch request with \<open>null\<close> or \<open>undefined\<close>: false without \<open>window.ethereum\<close>, true when
  the switch request succeeds, false when it fails with a code other than 4902 (or with
  none); when it fails with code 4902 the chain is added, and the result is true when
  that request succeeds and false when it fails, whatever it is rejected with. The add
  request is sent exactly when the switch failed with code 4902.
\<close>

theorem switchToBlockDAG_resolves:
  "(switchOutcome w \<noteq> Some Nullish \<longrightarrow> (\<exists>b. fst (switchToBlockDAG w) = ResolvesTo b)) \<and>
   (\<not> hasEthereum w \<longrightarrow> switchToBlockDAG w = (ResolvesTo False, [])) \<and>
   (hasEthereum w \<and> switchOutcome w = None \<longrightarrow>
      switchToBlockDAG w = (ResolvesTo True, [switchRequest])) \<and>
   (hasEthereum w \<and> switchOutcome w = Some (Thrown c) \<and> c \<noteq> Some 4902 \<longrightarrow>
      switchToBlockDAG w = (ResolvesTo False, [switchRequest])) \<and>
   (hasEthereum w \<and> switchOutcome w = Some (Thrown (Some 4902)) \<and> addOutcome w = None \<longrightarrow>
      switchToBlockDAG w = (ResolvesTo True, [switchRequest, addRequest])) \<and>
   (hasEthereum w \<and> switchOutcome w = Some (Thrown (Some 4902)) \<and> addOutcome w = Some e \<longrightarrow>
      switchToBlockDAG w = (ResolvesTo False, [switchRequest, addRequest])) \<and>
   (addRequest \<in> set (snd (switchToBlockDAG w)) \<longleftrightarrow>
      hasEthereum w \<and> switchOutcome w = Some (Thrown (Some 4902)))"
  by (auto simp: switchToBlockDAG_def requests_differ split: option.splits rejection.splits)

theorem switchToBlockDAG_resolves_witness:
  "switchToBlockDAG \<lparr>hasEthereum = False, switchOutcome = None, addOutcome = None\<rparr> =
     (ResolvesTo False, []) \<and>
   switchToBlockDAG \<lparr>hasEthereum = True, switchOutcome = None, addOutcome = None\<rparr> =
     (ResolvesTo True, [wallet_switchEthereumChain ''0x413'']) \<and>
   switchToBlockDAG \<lparr>hasEthereum = True, switchOutcome = Some (Thrown (Some 4001)),
       addOutcome = None\<rparr> =
     (ResolvesTo False, [wallet_switchEthereumChain ''0x413'']) \<and>
   switchToBlockDAG \<lparr>hasEthereum = True, switchOutcome = Some (Thrown None),
       addOutcome = None\<rparr> =
     (ResolvesTo False, [wallet_switchEthereumChain ''0x413'']) \<and>
   switchToBlockDAG \<lparr>hasEthereum = True, switchOutcome = Some (Thrown (Some 4902)),
       addOutcome = None\<rparr> =
     (ResolvesTo True, [wallet_switchEthereumChain ''0x413'', addRequest]) \<and>
   switchToBlockDAG \<lparr>hasEthereum = True, switchOutcome = Some (Thrown (Some 4902)),
       addOutcome = Some Nullish\<rparr> =
     (ResolvesTo False, [wallet_switchEthereumChain ''0x413'', addRequest])"
proof -
  have request: "switchRequest = wallet_switchEthereumChain ''0x413''"
    by (simp add: switchRequest_def chain_id_hex)
  from switchToBlockDAG_resolves
      [of "\<lparr>hasEthereum = False, switchOutcome = None, addOutcome = None\<rparr>"]
    switchToBlockDAG_resolves
      [of "\<lparr>hasEthereum = True, switchOutcome = None, addOutcome = None\<rparr>"]
    switchToBlockDAG_resolves
      [of "\<lparr>hasEthereum = True, switchOutcome = Some (Thrown (Some 4001)),
            addOutcome = None\<rparr>" "Some 4001"]
    switchToBlockDAG_resolves
      [of "\<lparr>hasEthereum = True, switchOutcome = Some (Thrown None),
            addOutcome = None\<rparr>" None]
    switchToBlockDAG_resolves
      [of "\<lparr>hasEthereum = True, switchOutcome = Some (Thrown (Some 4902)),
            addOutcome = None\<rparr>"]
    switchToBlockDAG_resolves
      [of "\<lparr>hasEthereum = True, switchOutcome = Some (Thrown (Some 4902)),
            addOutcome = Some Nullish\<rparr>" _ Nullish]
    request
  show ?thesis
    by simp
qed

text \<open>
  The promise does not always resolve: when the wallet rejects the switch request with
  \<open>null\<close> or \<open>undefined\<close>, it rejects with a \<open>TypeError\<close>.
\<close>

theorem switchToBlockDAG_resolves_counterexample:
  "switchToBlockDAG \<lparr>hasEthereum = True, switchOutcome = Some Nullish, addOutcome = None\<rparr> =
     (RejectsWithTypeError, [wallet_switchEthereumChain ''0x413'']) \<and>
   fst (switchToBlockDAG \<lparr>hasEthereum = True, switchOutcome = Some Nullish,
       addOutcome = None\<rparr>) \<noteq> ResolvesTo True \<and>
   fst (switchToBlockDAG \<lparr>hasEthereum = True, switchOutcome = Some Nullish,
       addOutcome = None\<rparr>) \<noteq> ResolvesTo False"
  by (simp add: switchToBlockDAG_def switchRequest_def chain_id_hex)

end
